theory Spec2Isabelle
  imports Main "HOL-Library.Word"
begin

section \<open>The chat server of example\_chat.cpp\<close>

text \<open>
  The program is one translation unit: a reader thread that pushes console lines into a
  queue, and class \<open>ChatServer\<close>, whose \<open>Run\<close> polls messages, connection callbacks
  and console commands until the global flag \<open>g_bQuit\<close> is set.

  The embedding keeps the globals and the members of \<open>ChatServer\<close> in one record and passes
  it through every function. The networking library is outside the repository; each call
  into it is appended to a trace, and the answers it gives (handles, return codes, received
  messages, callbacks) are inputs of the model. A killed process, a failed \<open>assert\<close> and
  the places where the C++ has no defined behaviour are values of type \<open>halt\<close>.
\<close>

subsection \<open>Handles, enumerations and structs\<close>

type_synonym HSteamNetConnection = "32 word"
type_synonym HSteamListenSocket = "32 word"
type_synonym HSteamNetPollGroup = "32 word"
type_synonym uint16 = "16 word"

text \<open>The invalid handles of the library's headers are all zero.\<close>

definition k_HSteamNetConnection_Invalid :: HSteamNetConnection where
  "k_HSteamNetConnection_Invalid = 0"

definition k_HSteamListenSocket_Invalid :: HSteamListenSocket where
  "k_HSteamListenSocket_Invalid = 0"

definition k_HSteamNetPollGroup_Invalid :: HSteamNetPollGroup where
  "k_HSteamNetPollGroup_Invalid = 0"

datatype ESteamNetworkingConnectionState =
    k_ESteamNetworkingConnectionState_None
  | k_ESteamNetworkingConnectionState_Connecting
  | k_ESteamNetworkingConnectionState_FindingRoute
  | k_ESteamNetworkingConnectionState_Connected
  | k_ESteamNetworkingConnectionState_ClosedByPeer
  | k_ESteamNetworkingConnectionState_ProblemDetectedLocally
  | k_ESteamNetworkingConnectionState_FinWait
  | k_ESteamNetworkingConnectionState_Linger
  | k_ESteamNetworkingConnectionState_Dead

text \<open>\<open>EResult\<close>: the code only compares with \<open>k_EResultOK\<close>.\<close>

datatype EResult = k_EResultOK | k_EResultOther int

datatype ESteamNetworkingSocketsDebugOutputType =
    k_ESteamNetworkingSocketsDebugOutputType_Bug
  | k_ESteamNetworkingSocketsDebugOutputType_Msg

datatype send_flags = k_nSteamNetworkingSend_UnreliableNoDelay

text \<open>\<open>struct Client_t\<close> has no fields.\<close>

datatype Client_t = Client_t

record SteamNetConnectionInfo_t =
  m_eState :: ESteamNetworkingConnectionState
  m_szConnectionDescription :: string
  m_eEndReason :: int
  m_szEndDebug :: string

record SteamNetConnectionStatusChangedCallback_t =
  m_hConn :: HSteamNetConnection
  m_info :: SteamNetConnectionInfo_t
  m_eOldState :: ESteamNetworkingConnectionState

text \<open>An \<open>ISteamNetworkingMessage\<close>: the sender and \<open>m_cbSize\<close> bytes at \<open>m_pData\<close>.\<close>

record ISteamNetworkingMessage =
  m_conn :: HSteamNetConnection
  m_pData :: string

subsection \<open>The trace of library calls and console output\<close>

datatype call =
    DebugOutput_call ESteamNetworkingSocketsDebugOutputType string
  | CreateListenSocketIP_call uint16
  | CreatePollGroup_call
  | ReceiveMessagesOnPollGroup_call HSteamNetPollGroup
  | Release_call
  | SendMessageToConnection_call HSteamNetConnection string nat send_flags
  | AcceptConnection_call HSteamNetConnection
  | SetConnectionPollGroup_call HSteamNetConnection HSteamNetPollGroup
  | CloseConnection_call HSteamNetConnection int "string option" bool
  | CloseListenSocket_call HSteamListenSocket
  | DestroyPollGroup_call HSteamNetPollGroup
  | RunCallbacks_call

text \<open>
  How a run stops other than by returning: \<open>NukeProcess\<close> kills the process;
  \<open>assert\<close> aborts it (the file never defines \<open>NDEBUG\<close>); and three places have no
  defined behaviour in C++: \<open>itClient->first\<close> on \<open>end()\<close> (line 332), \<open>sprintf\<close> past
  the 1024 bytes of \<open>temp\<close> (line 330), and the read of the pointer
  \<open>pszDebugLogAction\<close>, declared at line 380 and never assigned (line 387).
\<close>

datatype halt =
    NukeProcess int
  | assert_failed
  | end_iterator_dereferenced
  | sprintf_overflow
  | uninitialised_pointer_read

subsection \<open>The state\<close>

text \<open>
  \<open>m_mapClients\<close> is a \<open>std::map\<close>: an association list in ascending order of
  the keys, which is the order a range-for visits it in.

  \<open>accepted\<close> and \<open>poll_group\<close> are the library's side, as far as the calls of this
  program determine it: the connections accepted and not yet closed, and those among them
  assigned to the server's poll group.
\<close>

record server =
  g_bQuit :: bool
  queueUserInput :: "string list"
  m_hListenSock :: HSteamListenSocket
  m_hPollGroup :: HSteamNetPollGroup
  m_mapClients :: "(HSteamNetConnection \<times> Client_t) list"
  accepted :: "HSteamNetConnection set"
  poll_group :: "HSteamNetConnection set"
  calls :: "call list"

type_synonym result = "(halt \<times> server) + server"

definition initial :: server where
  "initial = \<lparr> g_bQuit = False, queueUserInput = [],
       m_hListenSock = k_HSteamListenSocket_Invalid,
       m_hPollGroup = k_HSteamNetPollGroup_Invalid,
       m_mapClients = [], accepted = {}, poll_group = {}, calls = [] \<rparr>"

subsection \<open>C strings and formatting\<close>

text \<open>A \<open>const char *\<close> ends at the first NUL: \<open>c_str\<close> read by \<open>strlen\<close>, \<open>strcmp\<close>, \<open>%s\<close>.\<close>

definition c_str :: "string \<Rightarrow> string" where
  "c_str s = takeWhile (\<lambda>c. c \<noteq> CHR 0x00) s"

text \<open>Decimal digits, for \<open>%d\<close>.\<close>

fun string_of_nat :: "nat \<Rightarrow> string" where
  "string_of_nat n =
     (if n < 10 then [''0123456789'' ! n]
      else string_of_nat (n div 10) @ [''0123456789'' ! (n mod 10)])"

declare string_of_nat.simps [simp del]

definition string_of_int :: "int \<Rightarrow> string" where
  "string_of_int i = (if i < 0 then CHR ''-'' # string_of_nat (nat (- i)) else string_of_nat (nat i))"

text \<open>\<open>Printf\<close> and \<open>FatalError\<close> drop one trailing newline of the formatted text.\<close>

definition strip_newline :: "string \<Rightarrow> string" where
  "strip_newline s = (if s \<noteq> [] \<and> last s = CHR 0x0A then butlast s else s)"

text \<open>
  \<open>DebugOutput\<close> prints the message after a time stamp (not modelled). When the type
  is \<open>Bug\<close> it then calls \<open>NukeProcess(1)\<close>; only \<open>FatalError\<close> passes that type.
\<close>

definition DebugOutput :: "ESteamNetworkingSocketsDebugOutputType \<Rightarrow> string \<Rightarrow> server \<Rightarrow> server" where
  "DebugOutput eType pszMsg st = st\<lparr>calls := calls st @ [DebugOutput_call eType pszMsg]\<rparr>"

definition FatalError :: "string \<Rightarrow> server \<Rightarrow> halt \<times> server" where
  "FatalError formatted st =
     (NukeProcess 1,
      DebugOutput k_ESteamNetworkingSocketsDebugOutputType_Bug (strip_newline formatted) st)"

definition Printf :: "string \<Rightarrow> server \<Rightarrow> server" where
  "Printf formatted st =
     DebugOutput k_ESteamNetworkingSocketsDebugOutputType_Msg (strip_newline formatted) st"

subsection \<open>Console input\<close>

text \<open>
  \<open>std::isspace\<close> in the C locale, which the program never changes: space, and
  \<open>\t \n \v \f \r\<close>. The lambdas of \<open>ltrim\<close> and \<open>rtrim\<close> take the \<open>char\<close> as an
  \<open>int\<close>, so a byte above 0x7F arrives negative where \<open>char\<close> is signed; the model takes the
  library's answer for such a byte to be no, as glibc gives it.
\<close>

definition isspace :: "char \<Rightarrow> bool" where
  "isspace ch = (ch = CHR 0x20 \<or> ch = CHR 0x09 \<or> ch = CHR 0x0A \<or> ch = CHR 0x0B
                 \<or> ch = CHR 0x0C \<or> ch = CHR 0x0D)"

text \<open>\<open>ltrim\<close> erases up to the first character that is not a space.\<close>

definition ltrim :: "string \<Rightarrow> string" where
  "ltrim s = dropWhile isspace s"

text \<open>\<open>rtrim\<close> searches from the end and erases what follows the character found.\<close>

definition rtrim :: "string \<Rightarrow> string" where
  "rtrim s = rev (dropWhile isspace (rev s))"

text \<open>
  One round of the reader thread's loop (lines 153 to 170), given what \<open>fgets\<close>
  returned: \<open>None\<close> for a null pointer, otherwise the buffer. The line is pushed as it was
  read; \<open>std::string(szLine)\<close> ends at the first NUL.
\<close>

definition reader_step :: "string option \<Rightarrow> server \<Rightarrow> server" where
  "reader_step line st =
     (if g_bQuit st then st
      else case line of
          None \<Rightarrow> Printf (''Failed to read on stdin, quitting'' @ [CHR 0x0A]) (st\<lparr>g_bQuit := True\<rparr>)
        | Some szLine \<Rightarrow> st\<lparr>queueUserInput := queueUserInput st @ [c_str szLine]\<rparr>)"

text \<open>
  \<open>LocalUserInput_GetNext\<close>: the current \<open>result\<close> and the queue in, then
  \<open>got_input\<close>, \<open>result\<close> and the queue out.
\<close>

fun LocalUserInput_GetNext :: "string \<Rightarrow> string list \<Rightarrow> bool \<times> string \<times> string list" where
  "LocalUserInput_GetNext result [] = (False, result, [])"
| "LocalUserInput_GetNext result (front # queue) =
     (let result' = rtrim (ltrim front)
      in if result' \<noteq> [] then (True, result', queue)
         else LocalUserInput_GetNext result' queue)"

lemma GetNext_shorter:
  "LocalUserInput_GetNext r q = (True, r', q') \<Longrightarrow> length q' < length q"
  by (induction q arbitrary: r) (fastforce simp: Let_def less_Suc_eq split: if_splits)+

text \<open>The text printed at line 350; it ends with a single quote.\<close>

definition only_one_command :: string where
  "only_one_command = ''The server only knows one command: '/quit'' @ [CHR 0x27]"

text \<open>\<open>PollLocalUserInput\<close>; the loop carries \<open>cmd\<close>.\<close>

function PollLocalUserInput_loop :: "string \<Rightarrow> server \<Rightarrow> server" where
  "PollLocalUserInput_loop cmd st =
     (if g_bQuit st then st
      else case LocalUserInput_GetNext cmd (queueUserInput st) of
        (got_input, cmd', queue') \<Rightarrow>
          if \<not> got_input then st\<lparr>queueUserInput := queue'\<rparr>
          else if c_str cmd' = ''/quit''
          then Printf ''Shutting down server'' (st\<lparr>queueUserInput := queue', g_bQuit := True\<rparr>)
          else PollLocalUserInput_loop cmd'
                 (Printf only_one_command
                    (st\<lparr>queueUserInput := queue'\<rparr>)))"
  by pat_completeness auto
termination
  by (relation "measure (\<lambda>(cmd, st). length (queueUserInput st))")
     (auto simp: Printf_def DebugOutput_def dest: GetNext_shorter[OF sym])

declare PollLocalUserInput_loop.simps [simp del]

definition PollLocalUserInput :: "server \<Rightarrow> server" where
  "PollLocalUserInput st = PollLocalUserInput_loop [] st"

subsection \<open>\<open>std::map\<close> operations\<close>

text \<open>\<open>find\<close>: the entry, or \<open>None\<close> for \<open>end()\<close>.\<close>

fun map_find :: "'k \<Rightarrow> ('k \<times> 'v) list \<Rightarrow> ('k \<times> 'v) option" where
  "map_find k [] = None"
| "map_find k (c # m) = (if fst c = k then Some c else map_find k m)"

text \<open>\<open>m[k] = v\<close>: the entry is created in key order, or overwritten.\<close>

fun map_assign :: "'k::linorder \<Rightarrow> 'v \<Rightarrow> ('k \<times> 'v) list \<Rightarrow> ('k \<times> 'v) list" where
  "map_assign k v [] = [(k, v)]"
| "map_assign k v (c # m) =
     (if k < fst c then (k, v) # c # m
      else if k = fst c then (k, v) # m
      else c # map_assign k v m)"

text \<open>\<open>erase(it)\<close> for the iterator \<open>find\<close> returned for \<open>k\<close>.\<close>

fun map_erase :: "'k \<Rightarrow> ('k \<times> 'v) list \<Rightarrow> ('k \<times> 'v) list" where
  "map_erase k [] = []"
| "map_erase k (c # m) = (if fst c = k then m else c # map_erase k m)"

subsection \<open>The library's calls\<close>

text \<open>
  Each function appends its call to the trace. What the library answers is an argument;
  the effect on \<open>accepted\<close> and \<open>poll_group\<close> is the library's documented one: a connection
  is accepted when \<open>AcceptConnection\<close> returns \<open>k_EResultOK\<close>, joins the group when
  \<open>SetConnectionPollGroup\<close> returns true, and is gone after \<open>CloseConnection\<close>.
\<close>

definition AcceptConnection :: "HSteamNetConnection \<Rightarrow> EResult \<Rightarrow> server \<Rightarrow> server" where
  "AcceptConnection hConn answer st =
     st\<lparr>calls := calls st @ [AcceptConnection_call hConn],
        accepted := (if answer = k_EResultOK then insert hConn (accepted st) else accepted st)\<rparr>"

definition SetConnectionPollGroup ::
  "HSteamNetConnection \<Rightarrow> HSteamNetPollGroup \<Rightarrow> bool \<Rightarrow> server \<Rightarrow> server" where
  "SetConnectionPollGroup hConn hPollGroup answer st =
     st\<lparr>calls := calls st @ [SetConnectionPollGroup_call hConn hPollGroup],
        poll_group := (if answer then insert hConn (poll_group st) else poll_group st)\<rparr>"

definition CloseConnection ::
  "HSteamNetConnection \<Rightarrow> int \<Rightarrow> string option \<Rightarrow> bool \<Rightarrow> server \<Rightarrow> server" where
  "CloseConnection hPeer nReason pszDebug bEnableLinger st =
     st\<lparr>calls := calls st @ [CloseConnection_call hPeer nReason pszDebug bEnableLinger],
        accepted := accepted st - {hPeer},
        poll_group := poll_group st - {hPeer}\<rparr>"

subsection \<open>Sending\<close>

text \<open>\<open>str\<close> is a \<open>const char *\<close>; the length sent is \<open>strlen(str)\<close>.\<close>

definition SendStringToClient :: "HSteamNetConnection \<Rightarrow> string \<Rightarrow> server \<Rightarrow> server" where
  "SendStringToClient conn str st =
     (let st1 = Printf ''Attempting to send string to client'' st
      in st1\<lparr>calls := calls st1 @
           [SendMessageToConnection_call conn str (length str)
              k_nSteamNetworkingSend_UnreliableNoDelay]\<rparr>)"

definition SendStringToAllClients :: "string \<Rightarrow> HSteamNetConnection \<Rightarrow> server \<Rightarrow> server" where
  "SendStringToAllClients str except st =
     fold (\<lambda>c s. if fst c \<noteq> except then SendStringToClient (fst c) str s else s)
          (m_mapClients st) st"

subsection \<open>\<open>PollIncomingMessages\<close>\<close>

text \<open>What one call of \<open>ReceiveMessagesOnPollGroup\<close> returned and stored.\<close>

record received =
  numMsgs :: int
  pIncomingMsg :: "ISteamNetworkingMessage option"

text \<open>
  Lines 318 to 332, for one message. \<open>sprintf\<close> writes \<open>test: \<close>, the command and a NUL
  into \<open>char temp[1024]\<close>. \<open>itClient\<close> is never compared with \<open>end()\<close>.
\<close>

definition PollIncomingMessages_body :: "ISteamNetworkingMessage \<Rightarrow> server \<Rightarrow> result" where
  "PollIncomingMessages_body msg st =
     (let itClient = map_find (m_conn msg) (m_mapClients st);
          sCmd = m_pData msg;
          cmd = c_str sCmd;
          st1 = st\<lparr>calls := calls st @ [Release_call]\<rparr>
      in if 1024 < length (''test: '' @ cmd) + 1 then Inl (sprintf_overflow, st1)
         else case itClient of
             None \<Rightarrow> Inl (end_iterator_dereferenced, st1)
           | Some c \<Rightarrow> Inr (SendStringToAllClients cmd (fst c) st1))"

text \<open>
  The loop, over what the successive calls of \<open>ReceiveMessagesOnPollGroup\<close> return;
  when the list is used up the library has no message left and returns 0.
\<close>

fun PollIncomingMessages :: "received list \<Rightarrow> server \<Rightarrow> result" where
  "PollIncomingMessages [] st =
     (if g_bQuit st then Inr st
      else Inr (st\<lparr>calls := calls st @ [ReceiveMessagesOnPollGroup_call (m_hPollGroup st)]\<rparr>))"
| "PollIncomingMessages (r # rs) st =
     (if g_bQuit st then Inr st
      else let st1 = st\<lparr>calls := calls st @ [ReceiveMessagesOnPollGroup_call (m_hPollGroup st)]\<rparr>
        in if numMsgs r = 0 then Inr st1
           else if numMsgs r < 0 then Inl (FatalError ''Error checking for messages'' st1)
           else case pIncomingMsg r of
               None \<Rightarrow> Inl (assert_failed, st1)
             | Some msg \<Rightarrow>
                 if numMsgs r \<noteq> 1 then Inl (assert_failed, st1)
                 else (case PollIncomingMessages_body msg st1 of
                         Inl h \<Rightarrow> Inl h
                       | Inr st2 \<Rightarrow> PollIncomingMessages rs st2))"

subsection \<open>\<open>OnSteamNetConnectionStatusChanged\<close>\<close>

text \<open>
  What the handler is given besides \<open>pInfo\<close>: the return values of the two library calls
  of the \<open>Connecting\<close> case, and what the read of the unassigned \<open>pszDebugLogAction\<close>
  yields: \<open>Some s\<close> when the bytes it happens to point at are the C string \<open>s\<close> (and the
  formatted line fits the 2048 bytes of \<open>Printf\<close>'s buffer), \<open>None\<close> when they cannot be
  read.
\<close>

record answers =
  AcceptConnection_answer :: EResult
  SetConnectionPollGroup_answer :: bool
  pszDebugLogAction :: "string option"

text \<open>Lines 367 to 407: \<open>ClosedByPeer\<close> and \<open>ProblemDetectedLocally\<close>.\<close>

definition on_closed :: "answers \<Rightarrow> SteamNetConnectionStatusChangedCallback_t \<Rightarrow> server \<Rightarrow> result" where
  "on_closed env pInfo st =
     (if m_eOldState pInfo = k_ESteamNetworkingConnectionState_Connected
      then (case map_find (m_hConn pInfo) (m_mapClients st) of
              None \<Rightarrow> Inl (assert_failed, st)
            | Some itClient \<Rightarrow>
               (case pszDebugLogAction env of
                  None \<Rightarrow> Inl (uninitialised_pointer_read, st)
                | Some action \<Rightarrow>
                    let st1 = Printf (''Connection '' @ m_szConnectionDescription (m_info pInfo)
                                @ '' '' @ action @ '', reason ''
                                @ string_of_int (m_eEndReason (m_info pInfo)) @ '': ''
                                @ m_szEndDebug (m_info pInfo) @ [CHR 0x0A]) st;
                        st2 = st1\<lparr>m_mapClients := map_erase (fst itClient) (m_mapClients st1)\<rparr>
                    in Inr (CloseConnection (m_hConn pInfo) 0 None False st2)))
      else if m_eOldState pInfo \<noteq> k_ESteamNetworkingConnectionState_Connecting
      then Inl (assert_failed, st)
      else Inr (CloseConnection (m_hConn pInfo) 0 None False st))"

text \<open>Lines 411 to 434: \<open>Connecting\<close>, which then falls through to \<open>Connected\<close>'s \<open>break\<close>.\<close>

definition on_connecting :: "answers \<Rightarrow> SteamNetConnectionStatusChangedCallback_t \<Rightarrow> server \<Rightarrow> result" where
  "on_connecting env pInfo st =
     (if map_find (m_hConn pInfo) (m_mapClients st) \<noteq> None then Inl (assert_failed, st)
      else let st1 = Printf (''Connection request from '' @ m_szConnectionDescription (m_info pInfo)) st;
               st2 = st1\<lparr>m_mapClients := map_assign (m_hConn pInfo) Client_t (m_mapClients st1)\<rparr>;
               st3 = AcceptConnection (m_hConn pInfo) (AcceptConnection_answer env) st2
        in if AcceptConnection_answer env \<noteq> k_EResultOK
           then Inr (Printf ''Can't accept connection.  (It was already closed?)''
                       (CloseConnection (m_hConn pInfo) 0 None False st3))
           else let st4 = SetConnectionPollGroup (m_hConn pInfo) (m_hPollGroup st3)
                            (SetConnectionPollGroup_answer env) st3
             in if \<not> SetConnectionPollGroup_answer env
                then Inr (Printf ''Failed to set poll group?''
                            (CloseConnection (m_hConn pInfo) 0 None False st4))
                else Inr st4)"

definition OnSteamNetConnectionStatusChanged ::
  "answers \<Rightarrow> SteamNetConnectionStatusChangedCallback_t \<Rightarrow> server \<Rightarrow> result" where
  "OnSteamNetConnectionStatusChanged env pInfo st =
     (case m_eState (m_info pInfo) of
        k_ESteamNetworkingConnectionState_None \<Rightarrow> Inr st
      | k_ESteamNetworkingConnectionState_ClosedByPeer \<Rightarrow> on_closed env pInfo st
      | k_ESteamNetworkingConnectionState_ProblemDetectedLocally \<Rightarrow> on_closed env pInfo st
      | k_ESteamNetworkingConnectionState_Connecting \<Rightarrow> on_connecting env pInfo st
      | k_ESteamNetworkingConnectionState_Connected \<Rightarrow> Inr st
      | _ \<Rightarrow> Inr st)"

text \<open>\<open>RunCallbacks\<close> hands the pending callbacks to the handler, in queue order.\<close>

fun RunCallbacks ::
  "(answers \<times> SteamNetConnectionStatusChangedCallback_t) list \<Rightarrow> server \<Rightarrow> result" where
  "RunCallbacks [] st = Inr st"
| "RunCallbacks (cb # cbs) st =
     (case OnSteamNetConnectionStatusChanged (fst cb) (snd cb) st of
        Inl h \<Rightarrow> Inl h
      | Inr st' \<Rightarrow> RunCallbacks cbs st')"

definition PollConnectionStateChanges ::
  "(answers \<times> SteamNetConnectionStatusChangedCallback_t) list \<Rightarrow> server \<Rightarrow> result" where
  "PollConnectionStateChanges cbs st =
     RunCallbacks cbs (st\<lparr>calls := calls st @ [RunCallbacks_call]\<rparr>)"

subsection \<open>\<open>Run\<close>\<close>

text \<open>
  What happens around one round of the loop at line 241: the reads the reader thread
  completed since the last round, what the receive calls return, and the callbacks pending.
  The reader runs beside the loop; the model lets it act after the loop's test. The sleep
  is not modelled.
\<close>

record tick =
  stdin :: "string option list"
  messages :: "received list"
  callbacks :: "(answers \<times> SteamNetConnectionStatusChangedCallback_t) list"

text \<open>\<open>None\<close>: the rounds given are used up and \<open>g_bQuit\<close> is still false.\<close>

fun Run_loop :: "tick list \<Rightarrow> server \<Rightarrow> result option" where
  "Run_loop [] st = (if g_bQuit st then Some (Inr st) else None)"
| "Run_loop (t # ts) st =
     (if g_bQuit st then Some (Inr st)
      else case PollIncomingMessages (messages t) (fold reader_step (stdin t) st) of
          Inl h \<Rightarrow> Some (Inl h)
        | Inr st1 \<Rightarrow>
           (case PollConnectionStateChanges (callbacks t) st1 of
              Inl h \<Rightarrow> Some (Inl h)
            | Inr st2 \<Rightarrow> Run_loop ts (PollLocalUserInput st2)))"

text \<open>Lines 249 to 269.\<close>

definition Run_shutdown :: "server \<Rightarrow> server" where
  "Run_shutdown st =
     (let st1 = Printf (''Closing connections...'' @ [CHR 0x0A]) st;
          st2 = fold (\<lambda>it s. CloseConnection (fst it) 0 (Some ''Server Shutdown'') True
                              (SendStringToClient (fst it) ''Server is shutting down.  Goodbye.'' s))
                  (m_mapClients st1) st1;
          st3 = st2\<lparr>m_mapClients := []\<rparr>;
          st4 = st3\<lparr>calls := calls st3 @ [CloseListenSocket_call (m_hListenSock st3)],
                    m_hListenSock := k_HSteamListenSocket_Invalid\<rparr>
      in st4\<lparr>calls := calls st4 @ [DestroyPollGroup_call (m_hPollGroup st4)],
             m_hPollGroup := k_HSteamNetPollGroup_Invalid\<rparr>)"

text \<open>
  \<open>Run\<close>, given the handles \<open>CreateListenSocketIP\<close> and \<open>CreatePollGroup\<close> return.
  Both failures print the same text.
\<close>

definition Run ::
  "uint16 \<Rightarrow> HSteamListenSocket \<Rightarrow> HSteamNetPollGroup \<Rightarrow> tick list \<Rightarrow> server \<Rightarrow> result option" where
  "Run nPort hListenSock hPollGroup ticks st =
     (let st1 = st\<lparr>calls := calls st @ [CreateListenSocketIP_call nPort],
                   m_hListenSock := hListenSock\<rparr>
      in if m_hListenSock st1 = k_HSteamListenSocket_Invalid
         then Some (Inl (FatalError (''Failed to listen on port '' @ string_of_int (uint nPort)) st1))
         else let st2 = st1\<lparr>calls := calls st1 @ [CreatePollGroup_call],
                            m_hPollGroup := hPollGroup\<rparr>
           in if m_hPollGroup st2 = k_HSteamNetPollGroup_Invalid
              then Some (Inl (FatalError (''Failed to listen on port '' @ string_of_int (uint nPort)) st2))
              else (case Run_loop ticks
                           (Printf (''Server listening on port '' @ string_of_int (uint nPort)
                                      @ [CHR 0x0A]) st2) of
                      None \<Rightarrow> None
                    | Some (Inl h) \<Rightarrow> Some (Inl h)
                    | Some (Inr st3) \<Rightarrow> Some (Inr (Run_shutdown st3))))"

subsection \<open>Names used in the statements\<close>

text \<open>The trace entry of the diagnostic printed for a command other than \<open>/quit\<close>.\<close>

definition unknown_command :: call where
  "unknown_command = DebugOutput_call k_ESteamNetworkingSocketsDebugOutputType_Msg only_one_command"

text \<open>The trace entry of the fatal message of lines 235 and 238.\<close>

definition failed_to_listen :: "uint16 \<Rightarrow> call" where
  "failed_to_listen nPort = DebugOutput_call k_ESteamNetworkingSocketsDebugOutputType_Bug
     (''Failed to listen on port '' @ string_of_int (uint nPort))"

text \<open>What the loop at line 251 does for one client: the notice, then the lingering close.\<close>

definition goodbye :: "HSteamNetConnection \<Rightarrow> call list" where
  "goodbye conn =
     [DebugOutput_call k_ESteamNetworkingSocketsDebugOutputType_Msg ''Attempting to send string to client'',
      SendMessageToConnection_call conn ''Server is shutting down.  Goodbye.''
        (length ''Server is shutting down.  Goodbye.'') k_nSteamNetworkingSend_UnreliableNoDelay,
      CloseConnection_call conn 0 (Some ''Server Shutdown'') True]"

text \<open>The state in which \<open>Run\<close> enters its loop, both handles being valid.\<close>

definition listening :: "uint16 \<Rightarrow> HSteamListenSocket \<Rightarrow> HSteamNetPollGroup \<Rightarrow> server \<Rightarrow> server" where
  "listening nPort hListenSock hPollGroup st =
     st\<lparr>m_hListenSock := hListenSock, m_hPollGroup := hPollGroup,
        calls := calls st @ [CreateListenSocketIP_call nPort, CreatePollGroup_call,
            DebugOutput_call k_ESteamNetworkingSocketsDebugOutputType_Msg
              (''Server listening on port '' @ string_of_int (uint nPort))]\<rparr>"

text \<open>
  Sample inputs: a \<open>Connecting\<close> callback, and a library that accepts every connection
  into the poll group (with it, the read of the unassigned pointer fails).
\<close>

definition connecting :: "HSteamNetConnection \<Rightarrow> SteamNetConnectionStatusChangedCallback_t" where
  "connecting h = \<lparr>m_hConn = h,
      m_info = \<lparr>m_eState = k_ESteamNetworkingConnectionState_Connecting,
                 m_szConnectionDescription = ''peer'', m_eEndReason = 0, m_szEndDebug = []\<rparr>,
      m_eOldState = k_ESteamNetworkingConnectionState_None\<rparr>"

definition accepting :: answers where
  "accepting = \<lparr>AcceptConnection_answer = k_EResultOK, SetConnectionPollGroup_answer = True,
                pszDebugLogAction = None\<rparr>"

text \<open>The keys of the registry, and the two directions in which it can agree with the library.\<close>

definition registered :: "server \<Rightarrow> HSteamNetConnection set" where
  "registered st = fst ` set (m_mapClients st)"

definition registry_open :: "server \<Rightarrow> bool" where
  "registry_open st = (registered st \<subseteq> accepted st)"

definition poll_group_registered :: "server \<Rightarrow> bool" where
  "poll_group_registered st = (poll_group st \<subseteq> registered st)"

text \<open>
  More sample inputs: a library that refuses the connection, one that accepts it and
  refuses the poll group, and a \<open>ClosedByPeer\<close> callback.
\<close>

definition refusing :: answers where
  "refusing = \<lparr>AcceptConnection_answer = k_EResultOther 2, SetConnectionPollGroup_answer = True,
                pszDebugLogAction = None\<rparr>"

definition closed_by_peer ::
  "HSteamNetConnection \<Rightarrow> ESteamNetworkingConnectionState \<Rightarrow> SteamNetConnectionStatusChangedCallback_t" where
  "closed_by_peer h old = \<lparr>m_hConn = h,
      m_info = \<lparr>m_eState = k_ESteamNetworkingConnectionState_ClosedByPeer,
                 m_szConnectionDescription = ''peer'', m_eEndReason = 1000, m_szEndDebug = ''bye''\<rparr>,
      m_eOldState = old\<rparr>"

definition no_poll_group :: answers where
  "no_poll_group = \<lparr>AcceptConnection_answer = k_EResultOK, SetConnectionPollGroup_answer = False,
                pszDebugLogAction = None\<rparr>"

text \<open>The invariant of \<open>std::map\<close>: keys strictly ascending.\<close>

definition is_map :: "('k::linorder \<times> 'v) list \<Rightarrow> bool" where
  "is_map m = sorted_wrt (<) (map fst m)"

text \<open>What \<open>SendStringToClient\<close> adds to the trace, and the connections a trace sends to.\<close>

definition send_to :: "string \<Rightarrow> HSteamNetConnection \<Rightarrow> call list" where
  "send_to str conn =
     [DebugOutput_call k_ESteamNetworkingSocketsDebugOutputType_Msg ''Attempting to send string to client'',
      SendMessageToConnection_call conn str (length str) k_nSteamNetworkingSend_UnreliableNoDelay]"

fun recipients :: "call list \<Rightarrow> HSteamNetConnection list" where
  "recipients [] = []"
| "recipients (SendMessageToConnection_call conn str n flags # cs) = conn # recipients cs"
| "recipients (c # cs) = recipients cs"

text \<open>The text of the \<open>Printf\<close> at line 385, after the newline is dropped.\<close>

definition closing_text :: "SteamNetConnectionInfo_t \<Rightarrow> string \<Rightarrow> string" where
  "closing_text info action =
     ''Connection '' @ m_szConnectionDescription info @ '' '' @ action @ '', reason ''
       @ string_of_int (m_eEndReason info) @ '': '' @ m_szEndDebug info"

text \<open>A message of 1018 bytes, none of them NUL, from connection 1.\<close>

definition long_message :: ISteamNetworkingMessage where
  "long_message = \<lparr>m_conn = 1, m_pData = replicate 1018 (CHR ''a'')\<rparr>"

text \<open>
  What the library promises: a message received on the poll group comes from a connection
  that is in the poll group; along a run, from one that is in it when the round begins.
\<close>

definition from_group :: "server \<Rightarrow> received \<Rightarrow> bool" where
  "from_group st r = (case pIncomingMsg r of None \<Rightarrow> True | Some m \<Rightarrow> m_conn m \<in> poll_group st)"

fun senders_in_group :: "tick list \<Rightarrow> server \<Rightarrow> bool" where
  "senders_in_group [] st = True"
| "senders_in_group (t # ts) st =
     ((\<forall>r\<in>set (messages t). from_group st r)
      \<and> (case PollIncomingMessages (messages t) (fold reader_step (stdin t) st) of
            Inl h \<Rightarrow> True
          | Inr st1 \<Rightarrow>
             (case PollConnectionStateChanges (callbacks t) st1 of
                Inl h \<Rightarrow> True
              | Inr st2 \<Rightarrow> senders_in_group ts (PollLocalUserInput st2))))"

text \<open>A run of two rounds: two clients connect; one sends \<open>hi\<close> and the operator quits.\<close>

definition two_rounds :: "tick list" where
  "two_rounds =
     [\<lparr>stdin = [], messages = [],
       callbacks = [(accepting, connecting 7), (accepting, connecting 3)]\<rparr>,
      \<lparr>stdin = [Some (''/quit'' @ [CHR 0x0A])],
       messages = [\<lparr>numMsgs = 1, pIncomingMsg = Some \<lparr>m_conn = 7, m_pData = ''hi''\<rparr>\<rparr>],
       callbacks = []\<rparr>]"

section \<open>Console input: trimming and commands\<close>

lemma ltrim_pad: "\<forall>c\<in>set pre. isspace c \<Longrightarrow> ltrim (pre @ s) = ltrim s"
  by (simp add: ltrim_def dropWhile_append2)

lemma rtrim_pad: "\<forall>c\<in>set post. isspace c \<Longrightarrow> rtrim (s @ post) = rtrim s"
  by (simp add: rtrim_def dropWhile_append)

lemma trim_pad:
  assumes "\<forall>c\<in>set pre. isspace c" and "\<forall>c\<in>set post. isspace c"
  shows "rtrim (ltrim (pre @ s @ post)) = rtrim (ltrim s)"
proof (cases "\<forall>c\<in>set s. isspace c")
  case True
  then have "ltrim (s @ post) = []" "ltrim s = []"
    using assms(2) by (auto simp: ltrim_def)
  then show ?thesis using assms(1) by (simp add: ltrim_pad)
next
  case False
  then have "ltrim (s @ post) = ltrim s @ post"
    by (auto simp: ltrim_def dropWhile_append1)
  then show ?thesis using assms by (simp add: ltrim_pad rtrim_pad)
qed

lemma ltrim_hd: "ltrim s \<noteq> [] \<Longrightarrow> \<not> isspace (hd (ltrim s))"
  unfolding ltrim_def by (rule hd_dropWhile)

lemma rtrim_last: "rtrim s \<noteq> [] \<Longrightarrow> \<not> isspace (last (rtrim s))"
  unfolding rtrim_def by (simp add: last_rev hd_dropWhile)

lemma rtrim_hd: "rtrim s \<noteq> [] \<Longrightarrow> hd (rtrim s) = hd s"
  unfolding rtrim_def
  by (metis append_Nil2 append_self_conv2 hd_append2 rev_append rev_rev_ident takeWhile_dropWhile_id)

lemma trim_ends:
  "rtrim (ltrim s) \<noteq> [] \<Longrightarrow> \<not> isspace (hd (rtrim (ltrim s))) \<and> \<not> isspace (last (rtrim (ltrim s)))"
  by (metis ltrim_hd rtrim_hd rtrim_last rtrim_def rev.simps(1) dropWhile.simps(1))

lemma loop_step:
  "queueUserInput st = front # q \<Longrightarrow>
   PollLocalUserInput_loop cmd st =
     (if g_bQuit st then st
      else if rtrim (ltrim front) = [] then PollLocalUserInput_loop [] (st\<lparr>queueUserInput := q\<rparr>)
      else if c_str (rtrim (ltrim front)) = ''/quit''
      then Printf ''Shutting down server'' (st\<lparr>queueUserInput := q, g_bQuit := True\<rparr>)
      else PollLocalUserInput_loop (rtrim (ltrim front))
             (Printf only_one_command (st\<lparr>queueUserInput := q\<rparr>)))"
  by (simp add: PollLocalUserInput_loop.simps[of cmd st]
                PollLocalUserInput_loop.simps[of "[]" "st\<lparr>queueUserInput := q\<rparr>"] Let_def
           split: prod.splits)

lemma Printf_unknown:
  "Printf only_one_command st =
     st\<lparr>calls := calls st @ [unknown_command]\<rparr>"
  by (simp add: Printf_def DebugOutput_def strip_newline_def unknown_command_def only_one_command_def)

lemma loop_no_quit:
  "\<not> g_bQuit st \<Longrightarrow> \<forall>L\<in>set (queueUserInput st). c_str (rtrim (ltrim L)) \<noteq> ''/quit'' \<Longrightarrow>
   PollLocalUserInput_loop cmd st =
     st\<lparr>queueUserInput := [],
        calls := calls st @ replicate (length (filter (\<lambda>L. rtrim (ltrim L) \<noteq> []) (queueUserInput st)))
                   unknown_command\<rparr>"
proof (induction "queueUserInput st" arbitrary: st cmd)
  case Nil
  then show ?case
    by (simp add: PollLocalUserInput_loop.simps[of cmd st])
next
  case (Cons front q)
  have qu: "queueUserInput st = front # q" using Cons.hyps(2) by simp
  show ?case
  proof (cases "rtrim (ltrim front) = []")
    case True
    have "PollLocalUserInput_loop cmd st = PollLocalUserInput_loop [] (st\<lparr>queueUserInput := q\<rparr>)"
      using Cons.prems(1) True by (simp add: loop_step[OF qu])
    also have "\<dots> = (st\<lparr>queueUserInput := q\<rparr>)\<lparr>queueUserInput := [],
        calls := calls (st\<lparr>queueUserInput := q\<rparr>) @
          replicate (length (filter (\<lambda>L. rtrim (ltrim L) \<noteq> []) (queueUserInput (st\<lparr>queueUserInput := q\<rparr>))))
                   unknown_command\<rparr>"
      using Cons.prems qu by (intro Cons.hyps(1)) simp_all
    finally show ?thesis using True qu by simp
  next
    case False
    let ?st' = "(st\<lparr>queueUserInput := q\<rparr>)\<lparr>calls := calls st @ [unknown_command]\<rparr>"
    have "PollLocalUserInput_loop cmd st = PollLocalUserInput_loop (rtrim (ltrim front)) ?st'"
      using Cons.prems False qu by (simp add: loop_step[OF qu] Printf_unknown)
    also have "\<dots> = ?st'\<lparr>queueUserInput := [],
        calls := calls ?st' @
          replicate (length (filter (\<lambda>L. rtrim (ltrim L) \<noteq> []) (queueUserInput ?st'))) unknown_command\<rparr>"
      using Cons.prems qu by (intro Cons.hyps(1)) simp_all
    finally show ?thesis using False qu by (simp add: replicate_append_same)
  qed
qed

lemma loop_quit:
  assumes "\<not> g_bQuit st" and "queueUserInput st = q @ Lq # rest"
    and "\<forall>L\<in>set q. c_str (rtrim (ltrim L)) \<noteq> ''/quit''"
    and "c_str (rtrim (ltrim Lq)) = ''/quit''"
  shows "PollLocalUserInput_loop cmd st =
     st\<lparr>queueUserInput := rest, g_bQuit := True,
        calls := calls st @ replicate (length (filter (\<lambda>L. rtrim (ltrim L) \<noteq> []) q)) unknown_command
                 @ [DebugOutput_call k_ESteamNetworkingSocketsDebugOutputType_Msg ''Shutting down server'']\<rparr>"
  using assms
proof (induction q arbitrary: st cmd)
  case Nil
  have "rtrim (ltrim Lq) \<noteq> []" using Nil.prems(4) by (auto simp: c_str_def)
  then show ?case using Nil.prems
    by (simp add: loop_step[of st Lq rest] Printf_def DebugOutput_def strip_newline_def)
next
  case (Cons front q)
  have qu: "queueUserInput st = front # (q @ Lq # rest)" using Cons.prems(2) by simp
  show ?case
  proof (cases "rtrim (ltrim front) = []")
    case True
    have "PollLocalUserInput_loop cmd st = PollLocalUserInput_loop [] (st\<lparr>queueUserInput := q @ Lq # rest\<rparr>)"
      using Cons.prems(1) True by (simp add: loop_step[OF qu])
    also have "\<dots> = (st\<lparr>queueUserInput := q @ Lq # rest\<rparr>)\<lparr>queueUserInput := rest, g_bQuit := True,
        calls := calls (st\<lparr>queueUserInput := q @ Lq # rest\<rparr>) @
          replicate (length (filter (\<lambda>L. rtrim (ltrim L) \<noteq> []) q)) unknown_command
          @ [DebugOutput_call k_ESteamNetworkingSocketsDebugOutputType_Msg ''Shutting down server'']\<rparr>"
      using Cons.prems by (intro Cons.IH) simp_all
    finally show ?thesis using True by simp
  next
    case False
    let ?st' = "(st\<lparr>queueUserInput := q @ Lq # rest\<rparr>)\<lparr>calls := calls st @ [unknown_command]\<rparr>"
    have "PollLocalUserInput_loop cmd st = PollLocalUserInput_loop (rtrim (ltrim front)) ?st'"
      using Cons.prems False by (simp add: loop_step[OF qu] Printf_unknown)
    also have "\<dots> = ?st'\<lparr>queueUserInput := rest, g_bQuit := True,
        calls := calls ?st' @
          replicate (length (filter (\<lambda>L. rtrim (ltrim L) \<noteq> []) q)) unknown_command
          @ [DebugOutput_call k_ESteamNetworkingSocketsDebugOutputType_Msg ''Shutting down server'']\<rparr>"
      using Cons.prems by (intro Cons.IH) simp_all
    finally show ?thesis using False by (simp add: replicate_append_same)
  qed
qed

text \<open>
  C7. A line with extra whitespace before and after it is processed exactly as the line
  itself: with the padded line in front of the queue, \<open>PollLocalUserInput\<close> ends in the same
  state. The instance below is \<open>/quit\<close> between two pairs of spaces, which sets \<open>g_bQuit\<close>.
\<close>

theorem padded_line_same_effect:
  assumes "\<not> g_bQuit st" and "\<forall>c\<in>set pre. isspace c" and "\<forall>c\<in>set post. isspace c"
  shows "PollLocalUserInput (st\<lparr>queueUserInput := (pre @ L @ post) # q\<rparr>)
         = PollLocalUserInput (st\<lparr>queueUserInput := L # q\<rparr>)"
  using assms
  by (simp add: PollLocalUserInput_def trim_pad
        loop_step[of "st\<lparr>queueUserInput := (pre @ L @ post) # q\<rparr>" "pre @ L @ post" q]
        loop_step[of "st\<lparr>queueUserInput := L # q\<rparr>" L q])

theorem padded_line_same_effect_witness:
  "PollLocalUserInput (initial\<lparr>queueUserInput := [''  /quit  '']\<rparr>)
     = PollLocalUserInput (initial\<lparr>queueUserInput := [''/quit'']\<rparr>)
   \<and> g_bQuit (PollLocalUserInput (initial\<lparr>queueUserInput := [''  /quit  '']\<rparr>))"
proof -
  have a: "\<not> g_bQuit initial" by (simp add: initial_def)
  have b: "\<forall>c\<in>set ''  ''. isspace c" by (simp add: isspace_def)
  have q: "PollLocalUserInput (initial\<lparr>queueUserInput := [''/quit'']\<rparr>)
        = Printf ''Shutting down server'' (initial\<lparr>queueUserInput := [], g_bQuit := True\<rparr>)"
    by (simp add: PollLocalUserInput_def loop_step[of _ "''/quit''" "[]"] initial_def
          ltrim_def rtrim_def isspace_def c_str_def)
  show ?thesis
    using padded_line_same_effect[OF a b b, of "''/quit''" "[]"] q
    by (simp add: Printf_def DebugOutput_def)
qed

text \<open>
  C9. While the flag is not set, \<open>PollLocalUserInput\<close> answers every queued line that is
  not blank and not \<open>/quit\<close> with exactly one diagnostic and changes nothing else but the
  queue: the registry and \<open>g_bQuit\<close> stay as they were. At the first \<open>/quit\<close> it sets
  \<open>g_bQuit\<close>, prints once and returns; the lines behind it stay in the queue.
\<close>

theorem console_commands:
  assumes "\<not> g_bQuit st" and "\<forall>L\<in>set q. c_str (rtrim (ltrim L)) \<noteq> ''/quit''"
  shows "PollLocalUserInput (st\<lparr>queueUserInput := q\<rparr>) =
           st\<lparr>queueUserInput := [],
              calls := calls st @ replicate (length (filter (\<lambda>L. rtrim (ltrim L) \<noteq> []) q)) unknown_command\<rparr>
       \<and> (c_str (rtrim (ltrim Lq)) = ''/quit'' \<longrightarrow>
            PollLocalUserInput (st\<lparr>queueUserInput := q @ Lq # rest\<rparr>) =
              st\<lparr>queueUserInput := rest, g_bQuit := True,
                 calls := calls st @ replicate (length (filter (\<lambda>L. rtrim (ltrim L) \<noteq> []) q)) unknown_command
                   @ [DebugOutput_call k_ESteamNetworkingSocketsDebugOutputType_Msg ''Shutting down server'']\<rparr>)"
proof (intro conjI impI)
  show "PollLocalUserInput (st\<lparr>queueUserInput := q\<rparr>) =
           st\<lparr>queueUserInput := [],
              calls := calls st @ replicate (length (filter (\<lambda>L. rtrim (ltrim L) \<noteq> []) q)) unknown_command\<rparr>"
    using assms loop_no_quit[of "st\<lparr>queueUserInput := q\<rparr>" "[]"]
    by (simp add: PollLocalUserInput_def)
next
  assume "c_str (rtrim (ltrim Lq)) = ''/quit''"
  then show "PollLocalUserInput (st\<lparr>queueUserInput := q @ Lq # rest\<rparr>) =
              st\<lparr>queueUserInput := rest, g_bQuit := True,
                 calls := calls st @ replicate (length (filter (\<lambda>L. rtrim (ltrim L) \<noteq> []) q)) unknown_command
                   @ [DebugOutput_call k_ESteamNetworkingSocketsDebugOutputType_Msg ''Shutting down server'']\<rparr>"
    using assms loop_quit[of "st\<lparr>queueUserInput := q @ Lq # rest\<rparr>" q Lq rest "[]"]
    by (simp add: PollLocalUserInput_def)
qed

theorem console_commands_witness:
  "PollLocalUserInput (initial\<lparr>queueUserInput := [''/foo'']\<rparr>) =
      initial\<lparr>queueUserInput := [], calls := [unknown_command]\<rparr>
   \<and> PollLocalUserInput (initial\<lparr>queueUserInput := [''/foo'', ''/quit'', ''/bar'']\<rparr>) =
      initial\<lparr>queueUserInput := [''/bar''], g_bQuit := True,
        calls := [unknown_command,
                  DebugOutput_call k_ESteamNetworkingSocketsDebugOutputType_Msg ''Shutting down server'']\<rparr>"
proof -
  have a: "\<not> g_bQuit initial" by (simp add: initial_def)
  have t: "rtrim (ltrim ''/foo'') = ''/foo''" "rtrim (ltrim ''/quit'') = ''/quit''"
    by (simp_all add: ltrim_def rtrim_def isspace_def)
  have b: "\<forall>L\<in>set [''/foo'']. c_str (rtrim (ltrim L)) \<noteq> ''/quit''"
    by (simp add: t c_str_def)
  have c: "c_str (rtrim (ltrim ''/quit'')) = ''/quit''" by (simp add: t c_str_def)
  show ?thesis
    using console_commands[OF a b, of "''/quit''" "[''/bar'']"] c
    by (simp add: t initial_def)
qed

text \<open>
  C6, as stated, fails: the reader pushes the line as \<open>fgets\<close> returned it, so a line of
  whitespace only is in the queue, untrimmed.
\<close>

theorem blank_line_is_enqueued:
  "queueUserInput (reader_step (Some [CHR '' '', CHR 0x09, CHR 0x0A]) initial)
      = [[CHR '' '', CHR 0x09, CHR 0x0A]]
   \<and> rtrim (ltrim [CHR '' '', CHR 0x09, CHR 0x0A]) = []"
  by (simp add: reader_step_def initial_def c_str_def ltrim_def rtrim_def isspace_def)

text \<open>
  C6, amended. The reader enqueues every line it reads, as read. \<open>LocalUserInput_GetNext\<close>
  trims on the way out: when it returns true, the result is not empty, neither starts nor
  ends with whitespace, and is the trimmed form of the first queued line that is not blank,
  the blank lines before it being dropped; when it returns false, every queued line was
  blank and the queue is empty.
\<close>

theorem trimmed_on_dequeue:
  "(\<not> g_bQuit st \<longrightarrow>
      queueUserInput (reader_step (Some szLine) st) = queueUserInput st @ [c_str szLine])
   \<and> (LocalUserInput_GetNext r q = (True, r', q') \<longrightarrow>
        r' \<noteq> [] \<and> \<not> isspace (hd r') \<and> \<not> isspace (last r')
        \<and> (\<exists>skipped front. q = skipped @ front # q' \<and> r' = rtrim (ltrim front)
              \<and> (\<forall>l\<in>set skipped. rtrim (ltrim l) = [])))
   \<and> (LocalUserInput_GetNext r q = (False, r', q') \<longrightarrow>
        q' = [] \<and> (\<forall>l\<in>set q. rtrim (ltrim l) = []))"
proof (intro conjI impI)
  show "queueUserInput (reader_step (Some szLine) st) = queueUserInput st @ [c_str szLine]"
    if "\<not> g_bQuit st" using that by (simp add: reader_step_def)
next
  assume g: "LocalUserInput_GetNext r q = (True, r', q')"
  then have ex: "\<exists>skipped front. q = skipped @ front # q' \<and> r' = rtrim (ltrim front)
              \<and> (\<forall>l\<in>set skipped. rtrim (ltrim l) = [])"
  proof (induction q arbitrary: r)
    case Nil
    then show ?case by simp
  next
    case (Cons a q)
    show ?case
    proof (cases "rtrim (ltrim a) = []")
      case True
      then have "LocalUserInput_GetNext [] q = (True, r', q')" using Cons.prems by simp
      from Cons.IH[OF this] obtain skipped front where
        "q = skipped @ front # q'" "r' = rtrim (ltrim front)" "\<forall>l\<in>set skipped. rtrim (ltrim l) = []"
        by blast
      then have "a # q = (a # skipped) @ front # q' \<and> r' = rtrim (ltrim front)
              \<and> (\<forall>l\<in>set (a # skipped). rtrim (ltrim l) = [])" using True by simp
      then show ?thesis by blast
    next
      case False
      then have "a # q = [] @ a # q' \<and> r' = rtrim (ltrim a) \<and> (\<forall>l\<in>set []. rtrim (ltrim l) = [])"
        using Cons.prems by (simp add: Let_def)
      then show ?thesis by blast
    qed
  qed
  have ne: "r' \<noteq> []" using g
    by (induction q arbitrary: r) (auto simp: Let_def split: if_splits)
  then show "r' \<noteq> []" .
  from ex ne show "\<not> isspace (hd r')" "\<not> isspace (last r')"
    using trim_ends by blast+
  from ex show "\<exists>skipped front. q = skipped @ front # q' \<and> r' = rtrim (ltrim front)
              \<and> (\<forall>l\<in>set skipped. rtrim (ltrim l) = [])" .
next
  assume "LocalUserInput_GetNext r q = (False, r', q')"
  then have "q' = [] \<and> (\<forall>l\<in>set q. rtrim (ltrim l) = [])"
    by (induction q arbitrary: r) (auto simp: Let_def split: if_splits)
  then show "q' = []" "\<forall>l\<in>set q. rtrim (ltrim l) = []" by simp_all
qed

theorem trimmed_on_dequeue_witness:
  "queueUserInput (reader_step (Some ''  /quit  '') initial) = [''  /quit  '']
   \<and> LocalUserInput_GetNext [] [''   '', ''  /quit  '', ''x''] = (True, ''/quit'', [''x''])
   \<and> \<not> isspace (hd ''/quit'') \<and> \<not> isspace (last ''/quit'')
   \<and> LocalUserInput_GetNext [] [''   ''] = (False, [], [])"
proof -
  have a: "\<not> g_bQuit initial" by (simp add: initial_def)
  have b: "LocalUserInput_GetNext [] [''   '', ''  /quit  '', ''x''] = (True, ''/quit'', [''x''])"
    by (simp add: ltrim_def rtrim_def isspace_def)
  have c: "LocalUserInput_GetNext [] [''   ''] = (False, [], [])"
    by (simp add: ltrim_def rtrim_def isspace_def)
  show ?thesis
    using trimmed_on_dequeue[of initial "''  /quit  ''" "[]" "[''   '', ''  /quit  '', ''x'']"
             "''/quit''" "[''x'']"] a b c
    by (simp add: c_str_def initial_def ltrim_def rtrim_def isspace_def)
qed

section \<open>Fatal errors\<close>

lemma digit_not_newline: "k < 10 \<Longrightarrow> ''0123456789'' ! k \<noteq> CHR 0x0A"
proof -
  assume "k < 10"
  then have "''0123456789'' ! k \<in> set ''0123456789''" by (intro nth_mem) simp
  then show ?thesis by auto
qed

lemma string_of_nat_last:
  "string_of_nat n \<noteq> [] \<and> last (string_of_nat n) \<noteq> CHR 0x0A"
  using digit_not_newline[of n] digit_not_newline[of "n mod 10"]
  by (cases "n < 10") (simp_all add: string_of_nat.simps[of n])

lemma string_of_int_last:
  "string_of_int i \<noteq> []" "last (string_of_int i) \<noteq> CHR 0x0A"
  using string_of_nat_last[of "nat i"] string_of_nat_last[of "nat (- i)"]
  by (auto simp: string_of_int_def)

text \<open>
  C10. Each of the three conditions ends the run at once in \<open>NukeProcess(1)\<close>, the fatal
  message being the last entry of the trace: an invalid listen socket (no poll group is
  created), an invalid poll group (the loop is never entered), and a negative return of
  \<open>ReceiveMessagesOnPollGroup\<close> (the results behind it are not looked at).
\<close>

theorem fatal_errors:
  "Run nPort k_HSteamListenSocket_Invalid hPollGroup ticks st =
     Some (Inl (NukeProcess 1,
       st\<lparr>calls := calls st @ [CreateListenSocketIP_call nPort, failed_to_listen nPort],
          m_hListenSock := k_HSteamListenSocket_Invalid\<rparr>))
   \<and> (hListenSock \<noteq> k_HSteamListenSocket_Invalid \<longrightarrow>
        Run nPort hListenSock k_HSteamNetPollGroup_Invalid ticks st =
          Some (Inl (NukeProcess 1,
            st\<lparr>calls := calls st @ [CreateListenSocketIP_call nPort, CreatePollGroup_call,
                                   failed_to_listen nPort],
               m_hListenSock := hListenSock, m_hPollGroup := k_HSteamNetPollGroup_Invalid\<rparr>)))
   \<and> (\<not> g_bQuit st \<and> numMsgs r < 0 \<longrightarrow>
        PollIncomingMessages (r # rs) st =
          Inl (NukeProcess 1,
            st\<lparr>calls := calls st @ [ReceiveMessagesOnPollGroup_call (m_hPollGroup st),
                 DebugOutput_call k_ESteamNetworkingSocketsDebugOutputType_Bug
                   ''Error checking for messages'']\<rparr>))"
  by (simp add: Run_def FatalError_def DebugOutput_def string_of_int_last failed_to_listen_def
        Let_def strip_newline_def)

lemma string_of_27020: "string_of_int 27020 = ''27020''"
  by (simp add: string_of_int_def string_of_nat.simps)

theorem fatal_errors_witness:
  "Run 27020 1 k_HSteamNetPollGroup_Invalid [] initial =
     Some (Inl (NukeProcess 1,
       initial\<lparr>calls := [CreateListenSocketIP_call 27020, CreatePollGroup_call,
                  DebugOutput_call k_ESteamNetworkingSocketsDebugOutputType_Bug
                    ''Failed to listen on port 27020''],
          m_hListenSock := 1\<rparr>))
   \<and> PollIncomingMessages [\<lparr>numMsgs = - 1, pIncomingMsg = None\<rparr>] initial =
       Inl (NukeProcess 1,
         initial\<lparr>calls := [ReceiveMessagesOnPollGroup_call k_HSteamNetPollGroup_Invalid,
             DebugOutput_call k_ESteamNetworkingSocketsDebugOutputType_Bug
               ''Error checking for messages'']\<rparr>)"
proof -
  have a: "(1 :: HSteamListenSocket) \<noteq> k_HSteamListenSocket_Invalid"
    by (simp add: k_HSteamListenSocket_Invalid_def)
  have b: "\<not> g_bQuit initial \<and> numMsgs \<lparr>numMsgs = - 1, pIncomingMsg = None\<rparr> < 0"
    by (simp add: initial_def)
  note f = fatal_errors[of 27020 k_HSteamNetPollGroup_Invalid "[]" initial 1
             "\<lparr>numMsgs = - 1, pIncomingMsg = None\<rparr>" "[]"]
  from f a have 1: "Run 27020 1 k_HSteamNetPollGroup_Invalid [] initial =
          Some (Inl (NukeProcess 1,
            initial\<lparr>calls := calls initial @ [CreateListenSocketIP_call 27020, CreatePollGroup_call,
                                   failed_to_listen 27020],
               m_hListenSock := 1, m_hPollGroup := k_HSteamNetPollGroup_Invalid\<rparr>))"
    by blast
  from f b have 2: "PollIncomingMessages [\<lparr>numMsgs = - 1, pIncomingMsg = None\<rparr>] initial =
          Inl (NukeProcess 1,
            initial\<lparr>calls := calls initial @ [ReceiveMessagesOnPollGroup_call (m_hPollGroup initial),
                 DebugOutput_call k_ESteamNetworkingSocketsDebugOutputType_Bug
                   ''Error checking for messages'']\<rparr>)"
    by blast
  show ?thesis
    unfolding 1 2 by (simp add: failed_to_listen_def string_of_27020 initial_def)
qed

section \<open>Shutdown\<close>

lemma goodbye_step:
  "CloseConnection c 0 (Some ''Server Shutdown'') True
     (SendStringToClient c ''Server is shutting down.  Goodbye.'' s) =
   s\<lparr>calls := calls s @ goodbye c, accepted := accepted s - {c}, poll_group := poll_group s - {c}\<rparr>"
  by (simp add: CloseConnection_def SendStringToClient_def Printf_def DebugOutput_def
        strip_newline_def goodbye_def Let_def)

lemma goodbye_fold:
  "fold (\<lambda>it s. CloseConnection (fst it) 0 (Some ''Server Shutdown'') True
                   (SendStringToClient (fst it) ''Server is shutting down.  Goodbye.'' s)) m st =
     st\<lparr>calls := calls st @ concat (map (\<lambda>it. goodbye (fst it)) m),
        accepted := accepted st - fst ` set m,
        poll_group := poll_group st - fst ` set m\<rparr>"
proof (induction m arbitrary: st)
  case Nil
  then show ?case by simp
next
  case (Cons it m)
  let ?F = "\<lambda>it s. CloseConnection (fst it) 0 (Some ''Server Shutdown'') True
                   (SendStringToClient (fst it) ''Server is shutting down.  Goodbye.'' s)"
  have a: "accepted st - {fst it} - fst ` set m = accepted st - insert (fst it) (fst ` set m)"
    and b: "poll_group st - {fst it} - fst ` set m = poll_group st - insert (fst it) (fst ` set m)"
    by auto
  have "fold ?F (it # m) st = fold ?F m (?F it st)" by simp
  also have "\<dots> = (?F it st)\<lparr>calls := calls (?F it st) @ concat (map (\<lambda>it. goodbye (fst it)) m),
        accepted := accepted (?F it st) - fst ` set m,
        poll_group := poll_group (?F it st) - fst ` set m\<rparr>"
    by (rule Cons.IH)
  also have "\<dots> = st\<lparr>calls := calls st @ concat (map (\<lambda>it. goodbye (fst it)) (it # m)),
        accepted := accepted st - fst ` set (it # m),
        poll_group := poll_group st - fst ` set (it # m)\<rparr>"
    by (simp add: goodbye_step a b)
  finally show ?case .
qed

lemma Run_shutdown_eq:
  "Run_shutdown st =
     st\<lparr>calls := calls st
          @ [DebugOutput_call k_ESteamNetworkingSocketsDebugOutputType_Msg ''Closing connections...'']
          @ concat (map (\<lambda>it. goodbye (fst it)) (m_mapClients st))
          @ [CloseListenSocket_call (m_hListenSock st), DestroyPollGroup_call (m_hPollGroup st)],
        m_mapClients := [],
        m_hListenSock := k_HSteamListenSocket_Invalid,
        m_hPollGroup := k_HSteamNetPollGroup_Invalid,
        accepted := accepted st - fst ` set (m_mapClients st),
        poll_group := poll_group st - fst ` set (m_mapClients st)\<rparr>"
  by (simp add: Run_shutdown_def goodbye_fold Let_def Printf_def DebugOutput_def strip_newline_def)

lemma Run_loop_exit: "Run_loop ticks st = Some (Inr st') \<Longrightarrow> g_bQuit st'"
  by (induction ticks arbitrary: st) (auto split: if_splits sum.splits)

lemma Run_listening:
  "hListenSock \<noteq> k_HSteamListenSocket_Invalid \<Longrightarrow> hPollGroup \<noteq> k_HSteamNetPollGroup_Invalid \<Longrightarrow>
   Run nPort hListenSock hPollGroup ticks st =
     (case Run_loop ticks (listening nPort hListenSock hPollGroup st) of
        None \<Rightarrow> None
      | Some (Inl h) \<Rightarrow> Some (Inl h)
      | Some (Inr st3) \<Rightarrow> Some (Inr (Run_shutdown st3)))"
proof -
  have "strip_newline (''Server listening on port '' @ string_of_int (uint nPort) @ [CHR 0x0A])
        = ''Server listening on port '' @ string_of_int (uint nPort)"
    by (simp add: strip_newline_def butlast_append)
  then show ?thesis
    if "hListenSock \<noteq> k_HSteamListenSocket_Invalid" "hPollGroup \<noteq> k_HSteamNetPollGroup_Invalid"
    using that by (simp add: Run_def listening_def Printf_def DebugOutput_def Let_def)
qed

text \<open>
  C8. When the loop of \<open>Run\<close> exits, the flag is set, and \<open>Run\<close> returns after exactly
  this: it prints that it is closing the connections; for every client of the registry, in
  key order, it sends the notice and closes that connection with linger; it clears the
  registry, closes the listen socket and destroys the poll group.
\<close>

theorem shutdown_sequence:
  assumes "hListenSock \<noteq> k_HSteamListenSocket_Invalid"
    and "hPollGroup \<noteq> k_HSteamNetPollGroup_Invalid"
    and "Run_loop ticks (listening nPort hListenSock hPollGroup st) = Some (Inr st')"
  shows "g_bQuit st' \<and>
     Run nPort hListenSock hPollGroup ticks st = Some (Inr
       (st'\<lparr>calls := calls st'
          @ [DebugOutput_call k_ESteamNetworkingSocketsDebugOutputType_Msg ''Closing connections...'']
          @ concat (map (\<lambda>it. goodbye (fst it)) (m_mapClients st'))
          @ [CloseListenSocket_call (m_hListenSock st'), DestroyPollGroup_call (m_hPollGroup st')],
        m_mapClients := [],
        m_hListenSock := k_HSteamListenSocket_Invalid,
        m_hPollGroup := k_HSteamNetPollGroup_Invalid,
        accepted := accepted st' - fst ` set (m_mapClients st'),
        poll_group := poll_group st' - fst ` set (m_mapClients st')\<rparr>))"
  using assms Run_loop_exit[OF assms(3)]
  by (simp add: Run_listening Run_shutdown_eq)

lemma sample_run:
  "Run_loop [\<lparr>stdin = [Some (''/quit'' @ [CHR 0x0A])], messages = [],
                    callbacks = [(accepting, connecting 7), (accepting, connecting 3)]\<rparr>]
         (listening 27020 1 2 initial) =
   Some (Inr \<lparr>g_bQuit = True, queueUserInput = [], m_hListenSock = 1,
          m_hPollGroup = 2, m_mapClients = [(3, Client_t), (7, Client_t)],
          accepted = {3, 7}, poll_group = {3, 7},
          calls =
            [CreateListenSocketIP_call 27020, CreatePollGroup_call,
             DebugOutput_call k_ESteamNetworkingSocketsDebugOutputType_Msg
              ''Server listening on port 27020'',
             ReceiveMessagesOnPollGroup_call 2, RunCallbacks_call,
             DebugOutput_call k_ESteamNetworkingSocketsDebugOutputType_Msg
              ''Connection request from peer'',
             AcceptConnection_call 7, SetConnectionPollGroup_call 7 2,
             DebugOutput_call k_ESteamNetworkingSocketsDebugOutputType_Msg
              ''Connection request from peer'',
             AcceptConnection_call 3, SetConnectionPollGroup_call 3 2,
             DebugOutput_call k_ESteamNetworkingSocketsDebugOutputType_Msg
              ''Shutting down server'']\<rparr>)"
  by (simp add: listening_def initial_def string_of_27020 reader_step_def c_str_def
        PollConnectionStateChanges_def OnSteamNetConnectionStatusChanged_def on_connecting_def
        connecting_def accepting_def Printf_def DebugOutput_def strip_newline_def
        AcceptConnection_def SetConnectionPollGroup_def Let_def
        PollLocalUserInput_def loop_step[of _ "''/quit'' @ [CHR 0x0A]" "[]"]
        ltrim_def rtrim_def isspace_def insert_commute)

theorem shutdown_sequence_witness:
  "Run 27020 1 2 [\<lparr>stdin = [Some (''/quit'' @ [CHR 0x0A])], messages = [],
                    callbacks = [(accepting, connecting 7), (accepting, connecting 3)]\<rparr>] initial =
   Some (Inr \<lparr>g_bQuit = True, queueUserInput = [],
          m_hListenSock = k_HSteamListenSocket_Invalid,
          m_hPollGroup = k_HSteamNetPollGroup_Invalid, m_mapClients = [],
          accepted = {}, poll_group = {},
          calls =
            [CreateListenSocketIP_call 27020, CreatePollGroup_call,
             DebugOutput_call k_ESteamNetworkingSocketsDebugOutputType_Msg
              ''Server listening on port 27020'',
             ReceiveMessagesOnPollGroup_call 2, RunCallbacks_call,
             DebugOutput_call k_ESteamNetworkingSocketsDebugOutputType_Msg
              ''Connection request from peer'',
             AcceptConnection_call 7, SetConnectionPollGroup_call 7 2,
             DebugOutput_call k_ESteamNetworkingSocketsDebugOutputType_Msg
              ''Connection request from peer'',
             AcceptConnection_call 3, SetConnectionPollGroup_call 3 2,
             DebugOutput_call k_ESteamNetworkingSocketsDebugOutputType_Msg
              ''Shutting down server'',
             DebugOutput_call k_ESteamNetworkingSocketsDebugOutputType_Msg
              ''Closing connections...'']
            @ goodbye 3 @ goodbye 7 @ [CloseListenSocket_call 1, DestroyPollGroup_call 2]\<rparr>)"
proof -
  have a: "(1 :: HSteamListenSocket) \<noteq> k_HSteamListenSocket_Invalid"
    by (simp add: k_HSteamListenSocket_Invalid_def)
  have b: "(2 :: HSteamNetPollGroup) \<noteq> k_HSteamNetPollGroup_Invalid"
    by (simp add: k_HSteamNetPollGroup_Invalid_def)
  show ?thesis
    using shutdown_sequence[OF a b sample_run] by simp
qed

section \<open>The registry as a map\<close>

lemma map_find_None: "map_find k m = None \<longleftrightarrow> k \<notin> fst ` set m"
  by (induction m) auto

lemma map_find_Some: "map_find k m = Some c \<Longrightarrow> fst c = k \<and> c \<in> set m"
  by (induction m) (auto split: if_splits)

lemma map_find_assign: "map_find k (map_assign k v m) = Some (k, v)"
  by (induction m) auto

lemma keys_map_assign: "fst ` set (map_assign k v m) = insert k (fst ` set m)"
  by (induction m) auto

lemma keys_map_erase: "fst ` set m - {k} \<subseteq> fst ` set (map_erase k m)"
  by (induction m) auto

lemma keys_map_erase_sub: "fst ` set (map_erase k m) \<subseteq> fst ` set m"
  by (induction m) auto

lemma is_map_distinct: "is_map m \<Longrightarrow> distinct (map fst m)"
  by (simp add: is_map_def strict_sorted_iff)

lemma is_map_assign: "is_map m \<Longrightarrow> is_map (map_assign k v m)"
  unfolding is_map_def
  by (induction m) (auto simp: keys_map_assign)

lemma is_map_erase: "is_map m \<Longrightarrow> is_map (map_erase k m)"
  unfolding is_map_def
  using keys_map_erase_sub by (induction m) fastforce+

lemma map_find_erase: "is_map m \<Longrightarrow> map_find k (map_erase k m) = None"
proof (induction m)
  case Nil
  then show ?case by simp
next
  case (Cons c m)
  show ?case
  proof (cases "fst c = k")
    case True
    then have "k \<notin> fst ` set m" using Cons.prems by (auto simp: is_map_def)
    then show ?thesis using True by (simp add: map_find_None)
  next
    case False
    then show ?thesis using Cons by (simp add: is_map_def)
  qed
qed

section \<open>Connection callbacks\<close>

text \<open>
  C4. A \<open>Connecting\<close> callback for a handle that is not yet registered (line 413 asserts
  it), when \<open>AcceptConnection\<close> or \<open>SetConnectionPollGroup\<close> fails: the handler returns
  normally; the record it inserted before the calls is still in the registry; the connection
  was closed with reason 0, no debug text and no linger; and after the close only the
  diagnostic is printed (when the accept fails, the poll group is never asked for).
\<close>

theorem connecting_failure_keeps_record:
  assumes "m_eState (m_info pInfo) = k_ESteamNetworkingConnectionState_Connecting"
    and "map_find (m_hConn pInfo) (m_mapClients st) = None"
    and "AcceptConnection_answer env \<noteq> k_EResultOK \<or> \<not> SetConnectionPollGroup_answer env"
  shows "OnSteamNetConnectionStatusChanged env pInfo st =
     Inr (st\<lparr>m_mapClients := map_assign (m_hConn pInfo) Client_t (m_mapClients st),
             accepted := accepted st - {m_hConn pInfo},
             poll_group := poll_group st - {m_hConn pInfo},
             calls := calls st
               @ [DebugOutput_call k_ESteamNetworkingSocketsDebugOutputType_Msg
                    (strip_newline (''Connection request from '' @ m_szConnectionDescription (m_info pInfo))),
                  AcceptConnection_call (m_hConn pInfo)]
               @ (if AcceptConnection_answer env = k_EResultOK
                  then [SetConnectionPollGroup_call (m_hConn pInfo) (m_hPollGroup st)] else [])
               @ [CloseConnection_call (m_hConn pInfo) 0 None False,
                  DebugOutput_call k_ESteamNetworkingSocketsDebugOutputType_Msg
                    (if AcceptConnection_answer env = k_EResultOK then ''Failed to set poll group?''
                     else ''Can't accept connection.  (It was already closed?)'')]\<rparr>)
   \<and> map_find (m_hConn pInfo) (map_assign (m_hConn pInfo) Client_t (m_mapClients st))
        = Some (m_hConn pInfo, Client_t)"
proof (cases "AcceptConnection_answer env = k_EResultOK")
  case True
  then have "\<not> SetConnectionPollGroup_answer env" using assms(3) by simp
  then show ?thesis using assms(1,2) True
    by (simp add: OnSteamNetConnectionStatusChanged_def on_connecting_def Let_def Printf_def
          DebugOutput_def AcceptConnection_def SetConnectionPollGroup_def CloseConnection_def
          map_find_assign)
       (simp add: strip_newline_def)
next
  case False
  then show ?thesis using assms(1,2)
    by (simp add: OnSteamNetConnectionStatusChanged_def on_connecting_def Let_def Printf_def
          DebugOutput_def AcceptConnection_def SetConnectionPollGroup_def CloseConnection_def
          map_find_assign)
       (simp add: strip_newline_def)
qed

theorem connecting_failure_keeps_record_witness:
  "OnSteamNetConnectionStatusChanged refusing (connecting 5) initial =
     Inr (initial\<lparr>m_mapClients := [(5, Client_t)],
            calls := [DebugOutput_call k_ESteamNetworkingSocketsDebugOutputType_Msg
                        ''Connection request from peer'',
                      AcceptConnection_call 5,
                      CloseConnection_call 5 0 None False,
                      DebugOutput_call k_ESteamNetworkingSocketsDebugOutputType_Msg
                        ''Can't accept connection.  (It was already closed?)'']\<rparr>)
   \<and> OnSteamNetConnectionStatusChanged no_poll_group (connecting 5) initial =
     Inr (initial\<lparr>m_mapClients := [(5, Client_t)],
            calls := [DebugOutput_call k_ESteamNetworkingSocketsDebugOutputType_Msg
                        ''Connection request from peer'',
                      AcceptConnection_call 5,
                      SetConnectionPollGroup_call 5 k_HSteamNetPollGroup_Invalid,
                      CloseConnection_call 5 0 None False,
                      DebugOutput_call k_ESteamNetworkingSocketsDebugOutputType_Msg
                        ''Failed to set poll group?'']\<rparr>)"
proof -
  have s: "m_eState (m_info (connecting 5)) = k_ESteamNetworkingConnectionState_Connecting"
    by (simp add: connecting_def)
  have f: "map_find (m_hConn (connecting 5)) (m_mapClients initial) = None"
    by (simp add: initial_def)
  have r: "AcceptConnection_answer refusing \<noteq> k_EResultOK \<or> \<not> SetConnectionPollGroup_answer refusing"
    by (simp add: refusing_def)
  have n: "AcceptConnection_answer no_poll_group \<noteq> k_EResultOK
             \<or> \<not> SetConnectionPollGroup_answer no_poll_group"
    by (simp add: no_poll_group_def)
  show ?thesis
    using connecting_failure_keeps_record[OF s f r] connecting_failure_keeps_record[OF s f n]
    by (simp add: connecting_def initial_def refusing_def no_poll_group_def strip_newline_def)
qed

text \<open>
  C1 does not hold of the code. In the initial state every registered handle is an accepted,
  open connection (there is none). One \<open>Connecting\<close> callback whose \<open>AcceptConnection\<close>
  fails leaves handle 5 in the registry although the connection was never accepted and
  has been closed.
\<close>

theorem failed_accept_leaves_closed_connection_registered:
  "registry_open initial
   \<and> OnSteamNetConnectionStatusChanged refusing (connecting 5) initial =
     Inr (initial\<lparr>m_mapClients := [(5, Client_t)],
            calls := [DebugOutput_call k_ESteamNetworkingSocketsDebugOutputType_Msg
                        ''Connection request from peer'',
                      AcceptConnection_call 5,
                      CloseConnection_call 5 0 None False,
                      DebugOutput_call k_ESteamNetworkingSocketsDebugOutputType_Msg
                        ''Can't accept connection.  (It was already closed?)'']\<rparr>)
   \<and> \<not> registry_open (initial\<lparr>m_mapClients := [(5, Client_t)],
            calls := [DebugOutput_call k_ESteamNetworkingSocketsDebugOutputType_Msg
                        ''Connection request from peer'',
                      AcceptConnection_call 5,
                      CloseConnection_call 5 0 None False,
                      DebugOutput_call k_ESteamNetworkingSocketsDebugOutputType_Msg
                        ''Can't accept connection.  (It was already closed?)'']\<rparr>)"
  by (simp add: registry_open_def registered_def initial_def refusing_def connecting_def
        OnSteamNetConnectionStatusChanged_def on_connecting_def Let_def Printf_def
        DebugOutput_def AcceptConnection_def CloseConnection_def strip_newline_def)

text \<open>
  C5 does not hold of the code on the \<open>Connected\<close> path: before it erases the record and
  closes the connection, the handler passes the unassigned pointer \<open>pszDebugLogAction\<close> to
  \<open>Printf\<close>. Where that read cannot be served, the run stops there, the record still
  registered and the connection not closed.
\<close>

theorem closed_by_peer_reads_unassigned_pointer:
  "OnSteamNetConnectionStatusChanged accepting
       (closed_by_peer 5 k_ESteamNetworkingConnectionState_Connected)
       (initial\<lparr>m_mapClients := [(5, Client_t)], accepted := {5}, poll_group := {5}\<rparr>)
   = Inl (uninitialised_pointer_read,
          initial\<lparr>m_mapClients := [(5, Client_t)], accepted := {5}, poll_group := {5}\<rparr>)"
  by (simp add: accepting_def closed_by_peer_def initial_def
        OnSteamNetConnectionStatusChanged_def on_closed_def)

text \<open>
  What the branch does otherwise. If the connection was \<open>Connected\<close>, is registered, and the
  read of \<open>pszDebugLogAction\<close> yields a string, the record is erased and the transition
  logged; if it was \<open>Connecting\<close>, the registry is untouched. Both times the connection is
  then closed with reason 0, no debug text and no linger.
\<close>

theorem closing_event:
  assumes "m_eState (m_info pInfo) = k_ESteamNetworkingConnectionState_ClosedByPeer
         \<or> m_eState (m_info pInfo) = k_ESteamNetworkingConnectionState_ProblemDetectedLocally"
  shows "(m_eOldState pInfo = k_ESteamNetworkingConnectionState_Connected
          \<and> map_find (m_hConn pInfo) (m_mapClients st) \<noteq> None
          \<and> pszDebugLogAction env = Some action \<longrightarrow>
          OnSteamNetConnectionStatusChanged env pInfo st =
            Inr (st\<lparr>m_mapClients := map_erase (m_hConn pInfo) (m_mapClients st),
                    accepted := accepted st - {m_hConn pInfo},
                    poll_group := poll_group st - {m_hConn pInfo},
                    calls := calls st @
                      [DebugOutput_call k_ESteamNetworkingSocketsDebugOutputType_Msg
                         (closing_text (m_info pInfo) action),
                       CloseConnection_call (m_hConn pInfo) 0 None False]\<rparr>))
      \<and> (m_eOldState pInfo = k_ESteamNetworkingConnectionState_Connecting \<longrightarrow>
          OnSteamNetConnectionStatusChanged env pInfo st =
            Inr (st\<lparr>accepted := accepted st - {m_hConn pInfo},
                    poll_group := poll_group st - {m_hConn pInfo},
                    calls := calls st @ [CloseConnection_call (m_hConn pInfo) 0 None False]\<rparr>))"
proof -
  have t: "strip_newline (''Connection '' @ m_szConnectionDescription (m_info pInfo) @ '' '' @ action
             @ '', reason '' @ string_of_int (m_eEndReason (m_info pInfo)) @ '': ''
             @ m_szEndDebug (m_info pInfo) @ [CHR 0x0A]) = closing_text (m_info pInfo) action"
    by (simp add: strip_newline_def closing_text_def butlast_append)
  have c: "on_closed env pInfo st =
            Inr (st\<lparr>m_mapClients := map_erase (m_hConn pInfo) (m_mapClients st),
                    accepted := accepted st - {m_hConn pInfo},
                    poll_group := poll_group st - {m_hConn pInfo},
                    calls := calls st @
                      [DebugOutput_call k_ESteamNetworkingSocketsDebugOutputType_Msg
                         (closing_text (m_info pInfo) action),
                       CloseConnection_call (m_hConn pInfo) 0 None False]\<rparr>)"
    if old: "m_eOldState pInfo = k_ESteamNetworkingConnectionState_Connected"
      and "map_find (m_hConn pInfo) (m_mapClients st) \<noteq> None"
      and act: "pszDebugLogAction env = Some action"
  proof -
    from that(2) obtain e where e: "map_find (m_hConn pInfo) (m_mapClients st) = Some e" by blast
    then have "fst e = m_hConn pInfo" by (simp add: map_find_Some)
    then show ?thesis using old e act t
      by (simp add: on_closed_def Let_def Printf_def DebugOutput_def CloseConnection_def)
  qed
  have n: "on_closed env pInfo st =
            Inr (st\<lparr>accepted := accepted st - {m_hConn pInfo},
                    poll_group := poll_group st - {m_hConn pInfo},
                    calls := calls st @ [CloseConnection_call (m_hConn pInfo) 0 None False]\<rparr>)"
    if "m_eOldState pInfo = k_ESteamNetworkingConnectionState_Connecting"
    using that by (simp add: on_closed_def CloseConnection_def)
  have "OnSteamNetConnectionStatusChanged env pInfo st = on_closed env pInfo st"
    using assms by (auto simp: OnSteamNetConnectionStatusChanged_def)
  then show ?thesis using c n by simp
qed

theorem closing_event_witness:
  "OnSteamNetConnectionStatusChanged (accepting\<lparr>pszDebugLogAction := Some ''closed by peer''\<rparr>)
       (closed_by_peer 5 k_ESteamNetworkingConnectionState_Connected)
       (initial\<lparr>m_mapClients := [(3, Client_t), (5, Client_t)], accepted := {3, 5}, poll_group := {3, 5}\<rparr>)
     = Inr (initial\<lparr>m_mapClients := [(3, Client_t)], accepted := {3}, poll_group := {3},
              calls := [DebugOutput_call k_ESteamNetworkingSocketsDebugOutputType_Msg
                          ''Connection peer closed by peer, reason 1000: bye'',
                        CloseConnection_call 5 0 None False]\<rparr>)
   \<and> OnSteamNetConnectionStatusChanged accepting
       (closed_by_peer 5 k_ESteamNetworkingConnectionState_Connecting)
       (initial\<lparr>m_mapClients := [(3, Client_t), (5, Client_t)], accepted := {3, 5}, poll_group := {3, 5}\<rparr>)
     = Inr (initial\<lparr>m_mapClients := [(3, Client_t), (5, Client_t)], accepted := {3}, poll_group := {3},
              calls := [CloseConnection_call 5 0 None False]\<rparr>)"
proof -
  let ?st = "initial\<lparr>m_mapClients := [(3, Client_t), (5, Client_t)], accepted := {3, 5}, poll_group := {3, 5}\<rparr>"
  have s: "m_eState (m_info (closed_by_peer 5 old)) = k_ESteamNetworkingConnectionState_ClosedByPeer
         \<or> m_eState (m_info (closed_by_peer 5 old)) = k_ESteamNetworkingConnectionState_ProblemDetectedLocally"
    for old by (simp add: closed_by_peer_def)
  have n: "string_of_int 1000 = ''1000''" by (simp add: string_of_int_def string_of_nat.simps)
  have d: "{3, 5} - {5} = {3 :: HSteamNetConnection}" by auto
  show ?thesis
    using closing_event[OF s, of k_ESteamNetworkingConnectionState_Connected ?st
             "accepting\<lparr>pszDebugLogAction := Some ''closed by peer''\<rparr>" "''closed by peer''"]
          closing_event[OF s, of k_ESteamNetworkingConnectionState_Connecting ?st accepting "[]"]
    by (simp add: closed_by_peer_def accepting_def initial_def closing_text_def n d)
qed

text \<open>The handler keeps the registry a map, and every member of the poll group registered.\<close>

lemma handler_keeps_is_map:
  assumes "is_map (m_mapClients st)" and "OnSteamNetConnectionStatusChanged env pInfo st = Inr st'"
  shows "is_map (m_mapClients st')"
  using assms
  by (cases "m_eState (m_info pInfo)")
     (auto simp: OnSteamNetConnectionStatusChanged_def on_closed_def on_connecting_def
        Let_def Printf_def DebugOutput_def AcceptConnection_def SetConnectionPollGroup_def
        CloseConnection_def is_map_assign is_map_erase
        split: if_splits option.splits)

lemma handler_keeps_poll_group_registered:
  assumes "poll_group_registered st" and "OnSteamNetConnectionStatusChanged env pInfo st = Inr st'"
  shows "poll_group_registered st'"
proof -
  have e: "x \<in> fst ` set (map_erase k (m_mapClients st))"
    if "x \<in> poll_group st" "x \<noteq> k" for x k
    using that assms(1) keys_map_erase[of "m_mapClients st" k]
    by (auto simp: poll_group_registered_def registered_def)
  show ?thesis
    using assms
    by (cases "m_eState (m_info pInfo)")
       (auto intro: e simp: OnSteamNetConnectionStatusChanged_def on_closed_def on_connecting_def
          poll_group_registered_def registered_def Let_def Printf_def DebugOutput_def
          AcceptConnection_def SetConnectionPollGroup_def CloseConnection_def keys_map_assign
          map_find_Some
          split: if_splits option.splits)
qed

section \<open>Broadcast\<close>

lemma send_fold:
  "fold (\<lambda>c s. if fst c \<noteq> except then SendStringToClient (fst c) str s else s) m st =
     st\<lparr>calls := calls st @ concat (map (\<lambda>c. send_to str (fst c)) (filter (\<lambda>c. fst c \<noteq> except) m))\<rparr>"
proof (induction m arbitrary: st)
  case Nil
  then show ?case by simp
next
  case (Cons c m)
  have step: "SendStringToClient (fst c) str st = st\<lparr>calls := calls st @ send_to str (fst c)\<rparr>"
    by (simp add: SendStringToClient_def Printf_def DebugOutput_def strip_newline_def send_to_def Let_def)
  show ?case
    by (cases "fst c = except") (simp_all add: Cons.IH step del: fold_simps add: fold_Cons)
qed

lemma SendStringToAllClients_eq:
  "SendStringToAllClients str except st =
     st\<lparr>calls := calls st @ concat (map (\<lambda>c. send_to str (fst c))
                                  (filter (\<lambda>c. fst c \<noteq> except) (m_mapClients st)))\<rparr>"
  by (simp add: SendStringToAllClients_def send_fold)

lemma recipients_append: "recipients (xs @ ys) = recipients xs @ recipients ys"
  by (induction xs rule: recipients.induct) simp_all

lemma recipients_sends:
  "recipients (concat (map (\<lambda>c. send_to str (fst c)) m)) = map fst m"
  by (induction m) (simp_all add: send_to_def)


lemma body_registered:
  assumes "map_find (m_conn msg) (m_mapClients st) \<noteq> None"
    and "length (c_str (m_pData msg)) < 1018"
  shows "PollIncomingMessages_body msg st =
     Inr (st\<lparr>calls := calls st @ Release_call #
            concat (map (\<lambda>c. send_to (c_str (m_pData msg)) (fst c))
                      (filter (\<lambda>c. fst c \<noteq> m_conn msg) (m_mapClients st)))\<rparr>)"
proof -
  from assms(1) obtain c where c: "map_find (m_conn msg) (m_mapClients st) = Some c" by blast
  then have "fst c = m_conn msg" by (simp add: map_find_Some)
  then show ?thesis using c assms(2)
    by (simp add: PollIncomingMessages_body_def Let_def SendStringToAllClients_eq)
qed

lemma others_count:
  "distinct (map fst m) \<Longrightarrow> k \<in> fst ` set m \<Longrightarrow>
   Suc (length (filter (\<lambda>c. fst c \<noteq> k) m)) = length m"
proof (induction m)
  case Nil
  then show ?case by simp
next
  case (Cons c m)
  show ?case
  proof (cases "fst c = k")
    case True
    then have "k \<notin> fst ` set m" using Cons.prems(1) by auto
    then have "filter (\<lambda>c. fst c \<noteq> k) m = m" by (auto simp: filter_id_conv)
    then show ?thesis using True by simp
  next
    case False
    then show ?thesis using Cons by auto
  qed
qed

text \<open>
  C2 does not hold of the code for every message: with the sender registered beside one
  other client, a message of 1018 bytes makes \<open>sprintf\<close> write 1025 bytes into
  \<open>temp[1024]\<close> before anything is sent.
\<close>

theorem long_message_overflows_temp:
  "map_find (m_conn long_message) [(1, Client_t), (2, Client_t)] = Some (1, Client_t)
   \<and> PollIncomingMessages_body long_message (initial\<lparr>m_mapClients := [(1, Client_t), (2, Client_t)]\<rparr>)
     = Inl (sprintf_overflow,
            initial\<lparr>m_mapClients := [(1, Client_t), (2, Client_t)], calls := [Release_call]\<rparr>)"
  by (simp add: long_message_def PollIncomingMessages_body_def c_str_def initial_def Let_def
        takeWhile_replicate)

text \<open>
  For a message whose text fits, C2 holds: with the sender registered and \<open>N + 1\<close> clients
  in the registry, handling the message adds exactly \<open>N\<close> sends to the trace, one to each
  other client in key order and none to the sender.
\<close>

theorem broadcast_to_the_others:
  assumes "map_find (m_conn msg) (m_mapClients st) \<noteq> None"
    and "is_map (m_mapClients st)"
    and "length (m_mapClients st) = Suc N"
    and "length (c_str (m_pData msg)) < 1018"
  shows "\<exists>new. PollIncomingMessages_body msg st = Inr (st\<lparr>calls := calls st @ new\<rparr>)
     \<and> recipients new = filter (\<lambda>conn. conn \<noteq> m_conn msg) (map fst (m_mapClients st))
     \<and> length (recipients new) = N
     \<and> distinct (recipients new)
     \<and> set (recipients new) = registered st - {m_conn msg}"
proof -
  let ?others = "filter (\<lambda>c. fst c \<noteq> m_conn msg) (m_mapClients st)"
  let ?new = "Release_call # concat (map (\<lambda>c. send_to (c_str (m_pData msg)) (fst c)) ?others)"
  have d: "distinct (map fst (m_mapClients st))" using assms(2) by (rule is_map_distinct)
  have r: "recipients ?new = map fst ?others" by (simp add: recipients_sends)
  have e: "map fst ?others = filter (\<lambda>conn. conn \<noteq> m_conn msg) (map fst (m_mapClients st))"
    by (simp add: filter_map comp_def)
  have k: "m_conn msg \<in> fst ` set (m_mapClients st)"
    using assms(1) by (simp add: map_find_None)
  have n: "length ?others = N" using others_count[OF d k] assms(3) by simp
  have "PollIncomingMessages_body msg st = Inr (st\<lparr>calls := calls st @ ?new\<rparr>)"
    using body_registered[OF assms(1,4)] by simp
  moreover have "recipients ?new = filter (\<lambda>conn. conn \<noteq> m_conn msg) (map fst (m_mapClients st))"
    using r e by simp
  moreover have "length (recipients ?new) = N" using r n by simp
  moreover have "distinct (recipients ?new)" using r e d by simp
  moreover have "set (recipients ?new) = registered st - {m_conn msg}"
    unfolding r e by (auto simp: registered_def)
  ultimately show ?thesis by blast
qed

theorem broadcast_to_the_others_witness:
  "\<exists>new. PollIncomingMessages_body \<lparr>m_conn = 5, m_pData = ''hello''\<rparr>
             (initial\<lparr>m_mapClients := [(3, Client_t), (5, Client_t), (7, Client_t)]\<rparr>)
           = Inr (initial\<lparr>m_mapClients := [(3, Client_t), (5, Client_t), (7, Client_t)],
                    calls := new\<rparr>)
       \<and> recipients new = [3, 7]"
proof -
  let ?st = "initial\<lparr>m_mapClients := [(3, Client_t), (5, Client_t), (7, Client_t)]\<rparr>"
  let ?msg = "\<lparr>m_conn = 5, m_pData = ''hello''\<rparr>"
  have a: "map_find (m_conn ?msg) (m_mapClients ?st) \<noteq> None" by simp
  have b: "is_map (m_mapClients ?st)" by (simp add: is_map_def)
  have c: "length (m_mapClients ?st) = Suc 2" by simp
  have d: "length (c_str (m_pData ?msg)) < 1018" by (simp add: c_str_def)
  from broadcast_to_the_others[OF a b c d] obtain new where
    n: "PollIncomingMessages_body ?msg ?st = Inr (?st\<lparr>calls := calls ?st @ new\<rparr>)"
       "recipients new = filter (\<lambda>conn. conn \<noteq> m_conn ?msg) (map fst (m_mapClients ?st))"
    by blast
  have "PollIncomingMessages_body ?msg ?st = Inr (?st\<lparr>calls := new\<rparr>) \<and> recipients new = [3, 7]"
    using n by (simp add: initial_def)
  then show ?thesis by blast
qed

section \<open>The sender of a message\<close>

lemma body_frame:
  "PollIncomingMessages_body msg st = Inr st' \<Longrightarrow>
     m_mapClients st' = m_mapClients st \<and> poll_group st' = poll_group st
     \<and> accepted st' = accepted st \<and> g_bQuit st' = g_bQuit st"
  by (auto simp: PollIncomingMessages_body_def Let_def SendStringToAllClients_eq
           split: if_splits option.splits)

lemma body_no_end_deref:
  assumes "poll_group_registered st" and "m_conn msg \<in> poll_group st"
  shows "map_find (m_conn msg) (m_mapClients st) \<noteq> None"
    and "PollIncomingMessages_body msg st \<noteq> Inl (end_iterator_dereferenced, st')"
proof -
  show f: "map_find (m_conn msg) (m_mapClients st) \<noteq> None"
    using assms by (auto simp: poll_group_registered_def registered_def map_find_None)
  then show "PollIncomingMessages_body msg st \<noteq> Inl (end_iterator_dereferenced, st')"
    by (auto simp: PollIncomingMessages_body_def Let_def)
qed

lemma loop_no_end_deref:
  assumes "poll_group_registered st"
    and "\<forall>r\<in>set rs. from_group st r"
  shows "PollIncomingMessages rs st \<noteq> Inl (end_iterator_dereferenced, st')"
  using assms
proof (induction rs arbitrary: st)
  case Nil
  then show ?case by simp
next
  case (Cons r rs)
  let ?st1 = "st\<lparr>calls := calls st @ [ReceiveMessagesOnPollGroup_call (m_hPollGroup st)]\<rparr>"
  have inv1: "poll_group_registered ?st1"
    using Cons.prems(1) by (simp add: poll_group_registered_def registered_def)
  show ?case
  proof (cases "g_bQuit st \<or> numMsgs r \<le> 0 \<or> numMsgs r \<noteq> 1 \<or> pIncomingMsg r = None")
    case True
    then show ?thesis by (auto simp: Let_def FatalError_def split: option.splits)
  next
    case False
    then obtain msg where m: "pIncomingMsg r = Some msg" by auto
    have g: "m_conn msg \<in> poll_group ?st1" using Cons.prems(2) m by (simp add: from_group_def)
    show ?thesis
    proof (cases "PollIncomingMessages_body msg ?st1")
      case (Inl h)
      then have "h \<noteq> (end_iterator_dereferenced, st')"
        using body_no_end_deref(2)[OF inv1 g, of st'] by auto
      then show ?thesis using False m Inl by (simp add: Let_def)
    next
      case (Inr st2)
      have fr: "m_mapClients st2 = m_mapClients st" "poll_group st2 = poll_group st"
        using body_frame[OF Inr] by simp_all
      have "poll_group_registered st2"
        using Cons.prems(1) fr by (simp add: poll_group_registered_def registered_def)
      moreover have "\<forall>r\<in>set rs. from_group st2 r"
        using Cons.prems(2) fr by (simp add: from_group_def split: option.splits)
      ultimately have "PollIncomingMessages rs st2 \<noteq> Inl (end_iterator_dereferenced, st')"
        by (rule Cons.IH)
      then show ?thesis using False m Inr by (simp add: Let_def)
    qed
  qed
qed

text \<open>
  C3. \<open>itClient->first\<close> is evaluated whatever \<open>find\<close> returned: for a sender that is not
  registered the run stops at the dereference of \<open>end()\<close>. When every connection of the poll
  group is registered and the message comes from a connection of the poll group, the sender
  is found, so that dereference does not happen, neither for one message nor anywhere in the
  loop of \<open>PollIncomingMessages\<close>.
\<close>

theorem sender_lookup:
  "(map_find (m_conn msg) (m_mapClients st) = None \<and> length (c_str (m_pData msg)) < 1018 \<longrightarrow>
       PollIncomingMessages_body msg st =
         Inl (end_iterator_dereferenced, st\<lparr>calls := calls st @ [Release_call]\<rparr>))
   \<and> (poll_group_registered st \<and> m_conn msg \<in> poll_group st \<longrightarrow>
        map_find (m_conn msg) (m_mapClients st) \<noteq> None
        \<and> (\<forall>st'. PollIncomingMessages_body msg st \<noteq> Inl (end_iterator_dereferenced, st')))
   \<and> (poll_group_registered st
        \<and> (\<forall>r\<in>set rs. from_group st r) \<longrightarrow>
        (\<forall>st'. PollIncomingMessages rs st \<noteq> Inl (end_iterator_dereferenced, st')))"
  using body_no_end_deref[of st msg] loop_no_end_deref[of st rs]
  by (auto simp: PollIncomingMessages_body_def Let_def)

theorem sender_lookup_witness:
  "PollIncomingMessages_body \<lparr>m_conn = 9, m_pData = ''hi''\<rparr>
       (initial\<lparr>m_mapClients := [(3, Client_t), (5, Client_t)], poll_group := {3, 5}\<rparr>)
     = Inl (end_iterator_dereferenced,
            initial\<lparr>m_mapClients := [(3, Client_t), (5, Client_t)], poll_group := {3, 5},
                    calls := [Release_call]\<rparr>)
   \<and> map_find 5 [(3 :: HSteamNetConnection, Client_t), (5, Client_t)] \<noteq> None
   \<and> PollIncomingMessages [\<lparr>numMsgs = 1, pIncomingMsg = Some \<lparr>m_conn = 5, m_pData = ''hi''\<rparr>\<rparr>]
         (initial\<lparr>m_mapClients := [(3, Client_t), (5, Client_t)], poll_group := {3, 5}\<rparr>)
       \<noteq> Inl (end_iterator_dereferenced, initial)"
proof -
  let ?st = "initial\<lparr>m_mapClients := [(3, Client_t), (5, Client_t)], poll_group := {3, 5}\<rparr>"
  have i: "poll_group_registered ?st"
    by (simp add: poll_group_registered_def registered_def)
  have a: "map_find (m_conn \<lparr>m_conn = 9, m_pData = ''hi''\<rparr>) (m_mapClients ?st) = None
           \<and> length (c_str (m_pData \<lparr>m_conn = 9, m_pData = ''hi''\<rparr>)) < 1018"
    by (simp add: c_str_def)
  have b: "\<forall>r\<in>set [\<lparr>numMsgs = 1, pIncomingMsg = Some \<lparr>m_conn = 5, m_pData = ''hi''\<rparr>\<rparr>].
             from_group ?st r"
    by (simp add: from_group_def)
  show ?thesis
    using sender_lookup[of "\<lparr>m_conn = 9, m_pData = ''hi''\<rparr>" ?st
            "[\<lparr>numMsgs = 1, pIncomingMsg = Some \<lparr>m_conn = 5, m_pData = ''hi''\<rparr>\<rparr>]"] i a b
    by (simp add: initial_def)
qed

text \<open>
  The same along a whole run: the invariant survives the reader, the message loop, the
  callbacks and the console, so no round of \<open>Run\<close>'s loop dereferences \<open>end()\<close>.
\<close>

lemma reader_frame:
  "m_mapClients (fold reader_step ls st) = m_mapClients st
   \<and> poll_group (fold reader_step ls st) = poll_group st"
  by (induction ls arbitrary: st)
     (auto simp: reader_step_def Printf_def DebugOutput_def split: option.splits)

lemma poll_messages_frame:
  "PollIncomingMessages rs st = Inr st' \<Longrightarrow>
     m_mapClients st' = m_mapClients st \<and> poll_group st' = poll_group st"
proof (induction rs arbitrary: st)
  case Nil
  then show ?case by (auto split: if_splits)
next
  case (Cons r rs)
  show ?case
  proof (cases "g_bQuit st \<or> numMsgs r = 0")
    case True
    then show ?thesis using Cons.prems by (auto simp: Let_def split: if_splits)
  next
    case False
    then obtain msg st2 where
      b: "PollIncomingMessages_body msg
            (st\<lparr>calls := calls st @ [ReceiveMessagesOnPollGroup_call (m_hPollGroup st)]\<rparr>) = Inr st2"
      and l: "PollIncomingMessages rs st2 = Inr st'"
      using Cons.prems by (auto simp: Let_def split: if_splits option.splits sum.splits)
    show ?thesis using body_frame[OF b] Cons.IH[OF l] by simp
  qed
qed

lemma callbacks_keep_poll_group_registered:
  "poll_group_registered st \<Longrightarrow> RunCallbacks cbs st = Inr st' \<Longrightarrow> poll_group_registered st'"
proof (induction cbs arbitrary: st)
  case Nil
  then show ?case by simp
next
  case (Cons cb cbs)
  then show ?case
    by (auto split: sum.splits dest: handler_keeps_poll_group_registered)
qed

lemma console_frame:
  "m_mapClients (PollLocalUserInput_loop cmd st) = m_mapClients st
   \<and> poll_group (PollLocalUserInput_loop cmd st) = poll_group st"
proof (induction cmd st rule: PollLocalUserInput_loop.induct)
  case (1 cmd st)
  show ?case
  proof (cases "LocalUserInput_GetNext cmd (queueUserInput st)")
    case (fields got_input cmd' queue')
    show ?thesis
    proof (cases "\<not> g_bQuit st \<and> got_input \<and> c_str cmd' \<noteq> ''/quit''")
      case True
      then have "m_mapClients (PollLocalUserInput_loop cmd' (Printf only_one_command (st\<lparr>queueUserInput := queue'\<rparr>)))
                 = m_mapClients (Printf only_one_command (st\<lparr>queueUserInput := queue'\<rparr>))
               \<and> poll_group (PollLocalUserInput_loop cmd' (Printf only_one_command (st\<lparr>queueUserInput := queue'\<rparr>)))
                 = poll_group (Printf only_one_command (st\<lparr>queueUserInput := queue'\<rparr>))"
        using "1.IH"[OF _ fields[symmetric] refl] by simp
      then show ?thesis using True fields
        by (simp add: PollLocalUserInput_loop.simps[of cmd st] Printf_def DebugOutput_def)
    next
      case False
      then show ?thesis using fields
        by (auto simp: PollLocalUserInput_loop.simps[of cmd st] Printf_def DebugOutput_def)
    qed
  qed
qed

theorem no_end_dereference_in_a_run:
  assumes "poll_group_registered st" and "senders_in_group ticks st"
  shows "Run_loop ticks st \<noteq> Some (Inl (end_iterator_dereferenced, st'))"
  using assms
proof (induction ticks arbitrary: st)
  case Nil
  then show ?case by simp
next
  case (Cons t ts)
  let ?st0 = "fold reader_step (stdin t) st"
  have i0: "poll_group_registered ?st0"
    using Cons.prems(1) reader_frame[of "stdin t" st]
    by (simp add: poll_group_registered_def registered_def)
  have m0: "\<forall>r\<in>set (messages t). from_group ?st0 r"
    using Cons.prems(2) reader_frame[of "stdin t" st]
    by (simp add: from_group_def split: option.splits)
  show ?case
  proof (cases "g_bQuit st")
    case True
    then show ?thesis by simp
  next
    case False
    show ?thesis
    proof (cases "PollIncomingMessages (messages t) ?st0")
      case (Inl h)
      then show ?thesis using False loop_no_end_deref[OF i0 m0, of st'] by auto
    next
      case (Inr st1)
      have i1: "poll_group_registered st1"
        using i0 poll_messages_frame[OF Inr] by (simp add: poll_group_registered_def registered_def)
      have i1': "poll_group_registered (st1\<lparr>calls := calls st1 @ [RunCallbacks_call]\<rparr>)"
        using i1 by (simp add: poll_group_registered_def registered_def)
      show ?thesis
      proof (cases "PollConnectionStateChanges (callbacks t) st1")
        case (Inl h)
        have "fst h \<noteq> end_iterator_dereferenced"
          using Inl
        proof -
          have "RunCallbacks cbs s \<noteq> Inl (end_iterator_dereferenced, s')" for cbs s s'
            by (induction cbs arbitrary: s)
               (auto simp: OnSteamNetConnectionStatusChanged_def on_closed_def on_connecting_def Let_def
                  split: sum.splits ESteamNetworkingConnectionState.splits option.splits if_splits)
          then show ?thesis using Inl by (cases h) (auto simp: PollConnectionStateChanges_def)
        qed
        then show ?thesis using False Inr Inl by auto
      next
        case (Inr st2)
        have i2: "poll_group_registered st2"
          using callbacks_keep_poll_group_registered[OF i1'] Inr
          by (simp add: PollConnectionStateChanges_def)
        have i3: "poll_group_registered (PollLocalUserInput st2)"
          using i2 console_frame[of "[]" st2]
          by (simp add: poll_group_registered_def registered_def PollLocalUserInput_def)
        have "senders_in_group ts (PollLocalUserInput st2)"
          using Cons.prems(2) \<open>PollIncomingMessages (messages t) ?st0 = Inr st1\<close> Inr by simp
        from Cons.IH[OF i3 this] show ?thesis
          using False \<open>PollIncomingMessages (messages t) ?st0 = Inr st1\<close> Inr by simp
      qed
    qed
  qed
qed

lemma loop_empty: "queueUserInput st = [] \<Longrightarrow> PollLocalUserInput_loop cmd st = st"
  by (simp add: PollLocalUserInput_loop.simps[of cmd st])

lemmas run_simps =
  initial_def reader_step_def c_str_def
  PollConnectionStateChanges_def OnSteamNetConnectionStatusChanged_def on_connecting_def
  connecting_def accepting_def Printf_def DebugOutput_def strip_newline_def
  AcceptConnection_def SetConnectionPollGroup_def Let_def
  PollIncomingMessages_body_def SendStringToAllClients_def SendStringToClient_def
  PollLocalUserInput_def loop_empty loop_step[of _ "''/quit'' @ [CHR 0x0A]" "[]"]
  ltrim_def rtrim_def isspace_def insert_commute

lemma two_rounds_run:
  "Run_loop two_rounds initial =
     Some (Inr (initial\<lparr>g_bQuit := True, m_mapClients := [(3, Client_t), (7, Client_t)],
        accepted := {3, 7}, poll_group := {3, 7},
        calls := [ReceiveMessagesOnPollGroup_call k_HSteamNetPollGroup_Invalid, RunCallbacks_call,
             DebugOutput_call k_ESteamNetworkingSocketsDebugOutputType_Msg
              ''Connection request from peer'',
             AcceptConnection_call 7, SetConnectionPollGroup_call 7 k_HSteamNetPollGroup_Invalid,
             DebugOutput_call k_ESteamNetworkingSocketsDebugOutputType_Msg
              ''Connection request from peer'',
             AcceptConnection_call 3, SetConnectionPollGroup_call 3 k_HSteamNetPollGroup_Invalid,
             ReceiveMessagesOnPollGroup_call k_HSteamNetPollGroup_Invalid, Release_call]
             @ send_to ''hi'' 3
             @ [ReceiveMessagesOnPollGroup_call k_HSteamNetPollGroup_Invalid, RunCallbacks_call,
             DebugOutput_call k_ESteamNetworkingSocketsDebugOutputType_Msg
              ''Shutting down server'']\<rparr>))"
  by (simp add: two_rounds_def run_simps send_to_def)

lemma two_rounds_contract: "senders_in_group two_rounds initial"
  by (simp add: two_rounds_def run_simps from_group_def)

theorem no_end_dereference_in_a_run_witness:
  "Run_loop two_rounds initial \<noteq> Some (Inl (end_iterator_dereferenced, initial))"
proof -
  have "poll_group_registered initial"
    by (simp add: poll_group_registered_def registered_def initial_def)
  then show ?thesis
    using no_end_dereference_in_a_run[OF _ two_rounds_contract] by blast
qed

end
